theory Spec2Isabelle
  imports Complex_Main
begin

section \<open>The ledger store\<close>

text \<open>
  The handlers of \<^verbatim>\<open>src/eu.js\<close> talk to a relational store through Prisma. Each table is
  a field of the record \<open>database\<close>. Tables that are only read and written by primary key
  are maps from the key; tables that are scanned (\<^verbatim>\<open>findMany\<close>) or only appended to are
  lists of rows in insertion order. Row ids are natural numbers; in a table that is a
  map the id is the key, so the row has no id column of its own. Amounts are whole
  kwanzas (\<open>int\<close>); timestamps are milliseconds since the epoch (\<open>int\<close>). The free-text
  \<^verbatim>\<open>description\<close> columns and the \<^verbatim>\<open>mobile\<close> column, which only feed log texts, are left
  out. Every \<^verbatim>\<open>new Date()\<close> of one request is the single instant \<open>now\<close> handed to the
  handler. \<open>next_id\<close> is the store's id sequence: the id the next created row gets.
  Requests are handled one after the other; interleavings of concurrent requests are not
  modelled.
\<close>

type_synonym ident = nat
type_synonym time = int

record user =
  u_saldo :: int
  u_inviter_id :: "ident option"

record purchase =
  p_id :: ident
  p_user_id :: ident
  p_product_id :: string
  p_product_name :: string
  p_amount :: int
  p_quantity :: int
  p_daily_return :: "int option"
  p_cycle_days :: "int option"
  p_purchase_date :: time
  p_next_payout :: time
  p_expiry_date :: time
  p_status :: string
  p_total_earned :: int
  p_payout_count :: int
  p_last_payout :: "time option"
  p_completed_at :: "time option"

record txn =
  t_user_id :: ident
  t_type :: string
  t_amount :: int
  t_balance_after :: int
  t_created_at :: time

record system_log =
  l_action :: string
  l_user_id :: "ident option"
  l_created_at :: time

record deposit =
  d_user_id :: ident
  d_amount :: int
  d_status :: string
  d_processed_at :: "time option"

record withdrawal =
  w_user_id :: ident
  w_amount :: int
  w_status :: string
  w_processed_at :: "time option"

record referral_level =
  rl_referrer_id :: ident
  rl_user_id :: ident
  rl_level :: int

record referral_bonus =
  rb_referrer_id :: ident
  rb_referred_user_id :: ident
  rb_level :: int
  rb_purchase_amount :: int
  rb_bonus_amount :: int
  rb_bonus_percentage :: rat
  rb_created_at :: time

record database =
  users :: "ident \<rightharpoonup> user"
  purchases :: "purchase list"
  transactions :: "txn list"
  systemLogs :: "system_log list"
  deposits :: "ident \<rightharpoonup> deposit"
  withdrawals :: "ident \<rightharpoonup> withdrawal"
  referralLevels :: "referral_level list"
  referralBonuses :: "referral_bonus list"
  next_id :: ident

section \<open>Store calls, failures and \<^verbatim>\<open>$transaction\<close>\<close>

text \<open>
  A store call can throw. \<open>RecordNotFound\<close> is Prisma's error for an \<^verbatim>\<open>update\<close> whose
  \<^verbatim>\<open>where\<close> matches no row; \<open>StoreError\<close> is any failure of the store itself (lost
  connection, timeout, a value the schema refuses); \<open>ReferenceError\<close> is JavaScript's
  error for reading an identifier that is not declared.

  The world a handler runs in is the database together with the outcomes of the coming
  store writes: the head of the list tells whether the next write throws \<open>StoreError\<close>
  (\<open>True\<close>) or is carried out (\<open>False\<close>); past the end of the list every write is
  carried out. Reads are taken to succeed.
\<close>

datatype js_error = StoreError | RecordNotFound | ReferenceError string | Error string

type_synonym world = "database \<times> bool list"
type_synonym 'a prisma = "world \<Rightarrow> (js_error + 'a) \<times> world"

definition ret :: "'a \<Rightarrow> 'a prisma" where
  "ret x w = (Inr x, w)"

definition throw :: "js_error \<Rightarrow> 'a prisma" where
  "throw e w = (Inl e, w)"

text \<open>\<open>andThen m f\<close> is \<^verbatim>\<open>const x = await m; f(x)\<close>: an error of \<open>m\<close> skips \<open>f\<close>.\<close>

definition andThen :: "'a prisma \<Rightarrow> ('a \<Rightarrow> 'b prisma) \<Rightarrow> 'b prisma" where
  "andThen m f w = (case m w of (Inl e, w') \<Rightarrow> (Inl e, w') | (Inr x, w') \<Rightarrow> f x w')"

text \<open>One write against the store: it consumes one outcome.\<close>

definition store_write :: "(database \<Rightarrow> js_error + 'a \<times> database) \<Rightarrow> 'a prisma" where
  "store_write f w =
     (case w of (db, outcomes) \<Rightarrow>
        (case outcomes of
           True # rest \<Rightarrow> (Inl StoreError, (db, rest))
         | _ \<Rightarrow> (case f db of
                   Inl e \<Rightarrow> (Inl e, (db, tl outcomes))
                 | Inr (x, db') \<Rightarrow> (Inr x, (db', tl outcomes)))))"

text \<open>
  \<^verbatim>\<open>prisma.$transaction(async (tx) => ...)\<close>: when the callback throws, every write it
  made is rolled back and the error is thrown on; otherwise its writes are committed.
\<close>

definition dollar_transaction :: "'a prisma \<Rightarrow> 'a prisma" where
  "dollar_transaction m w =
     (case m w of
        (Inl e, w') \<Rightarrow> (Inl e, (fst w, snd w'))
      | (Inr x, w') \<Rightarrow> (Inr x, w'))"

subsection \<open>The Prisma calls used by the handlers\<close>

definition user_update_increment :: "ident \<Rightarrow> int \<Rightarrow> user prisma" where
  "user_update_increment uid delta = store_write (\<lambda>db.
     case users db uid of
       None \<Rightarrow> Inl RecordNotFound
     | Some u \<Rightarrow> let u' = u\<lparr>u_saldo := u_saldo u + delta\<rparr>
                in Inr (u', db\<lparr>users := (users db)(uid \<mapsto> u')\<rparr>))"

definition user_update_saldo :: "ident \<Rightarrow> int \<Rightarrow> user prisma" where
  "user_update_saldo uid v = store_write (\<lambda>db.
     case users db uid of
       None \<Rightarrow> Inl RecordNotFound
     | Some u \<Rightarrow> let u' = u\<lparr>u_saldo := v\<rparr>
                in Inr (u', db\<lparr>users := (users db)(uid \<mapsto> u')\<rparr>))"

definition purchase_update :: "ident \<Rightarrow> (purchase \<Rightarrow> purchase) \<Rightarrow> unit prisma" where
  "purchase_update pid f = store_write (\<lambda>db.
     if \<exists>q \<in> set (purchases db). p_id q = pid
     then Inr ((), db\<lparr>purchases := map (\<lambda>q. if p_id q = pid then f q else q) (purchases db)\<rparr>)
     else Inl RecordNotFound)"

definition purchase_create :: "(ident \<Rightarrow> purchase) \<Rightarrow> purchase prisma" where
  "purchase_create mk = store_write (\<lambda>db.
     let row = mk (next_id db)
     in Inr (row, db\<lparr>purchases := purchases db @ [row], next_id := Suc (next_id db)\<rparr>))"

definition transaction_create :: "txn \<Rightarrow> txn prisma" where
  "transaction_create row = store_write (\<lambda>db.
     Inr (row, db\<lparr>transactions := transactions db @ [row]\<rparr>))"

definition systemLog_create :: "system_log \<Rightarrow> unit prisma" where
  "systemLog_create row = store_write (\<lambda>db.
     Inr ((), db\<lparr>systemLogs := systemLogs db @ [row]\<rparr>))"

definition user_update_decrement :: "ident \<Rightarrow> int \<Rightarrow> user prisma" where
  "user_update_decrement uid delta = store_write (\<lambda>db.
     case users db uid of
       None \<Rightarrow> Inl RecordNotFound
     | Some u \<Rightarrow> let u' = u\<lparr>u_saldo := u_saldo u - delta\<rparr>
                in Inr (u', db\<lparr>users := (users db)(uid \<mapsto> u')\<rparr>))"

definition deposit_update :: "ident \<Rightarrow> (deposit \<Rightarrow> deposit) \<Rightarrow> deposit prisma" where
  "deposit_update did f = store_write (\<lambda>db.
     case deposits db did of
       None \<Rightarrow> Inl RecordNotFound
     | Some d \<Rightarrow> Inr (f d, db\<lparr>deposits := (deposits db)(did \<mapsto> f d)\<rparr>))"

definition withdrawal_update :: "ident \<Rightarrow> (withdrawal \<Rightarrow> withdrawal) \<Rightarrow> withdrawal prisma" where
  "withdrawal_update wid f = store_write (\<lambda>db.
     case withdrawals db wid of
       None \<Rightarrow> Inl RecordNotFound
     | Some x \<Rightarrow> Inr (f x, db\<lparr>withdrawals := (withdrawals db)(wid \<mapsto> f x)\<rparr>))"

definition withdrawal_create :: "withdrawal \<Rightarrow> ident prisma" where
  "withdrawal_create row = store_write (\<lambda>db.
     Inr (next_id db,
          db\<lparr>withdrawals := (withdrawals db)(next_id db \<mapsto> row), next_id := Suc (next_id db)\<rparr>))"

definition referralLevel_create :: "referral_level \<Rightarrow> unit prisma" where
  "referralLevel_create row = store_write (\<lambda>db.
     Inr ((), db\<lparr>referralLevels := referralLevels db @ [row]\<rparr>))"

definition referralBonus_create :: "referral_bonus \<Rightarrow> unit prisma" where
  "referralBonus_create row = store_write (\<lambda>db.
     Inr ((), db\<lparr>referralBonuses := referralBonuses db @ [row]\<rparr>))"

text \<open>\<^verbatim>\<open>prisma.user.findUnique\<close> inside a sequence of awaits.\<close>

definition user_findUnique :: "ident \<Rightarrow> user option prisma" where
  "user_findUnique uid w = (Inr (users (fst w) uid), w)"


definition falsy_str :: "string option \<Rightarrow> bool" where
  "falsy_str x \<longleftrightarrow> (case x of None \<Rightarrow> True | Some v \<Rightarrow> v = [])"

section \<open>Responses\<close>

text \<open>
  A response is its HTTP status, its \<^verbatim>\<open>success\<close> flag and what it says. \<open>NoResponse\<close> is a
  handler whose \<^verbatim>\<open>catch\<close> block throws itself: the request is never answered.
\<close>

record bonus_detail =
  bd_level :: int
  bd_sponsor_id :: ident
  bd_amount :: int

record bonus_results =
  level1 :: int
  level2 :: int
  level3 :: int
  total :: int
  details :: "bonus_detail list"

record bulk_result =
  b_user_id :: ident
  b_action :: string
  b_amount :: int
  b_old_balance :: int
  b_new_balance :: int

datatype bulk_failure =
    InvalidData | NoSuchUser | InsufficientFunds int | InvalidAction | Thrown js_error

datatype message =
    NothingToProcess
  | PayoutsDone nat int
  | InternalError js_error
  | InvalidAmount
  | InvalidNewBalance
  | UserNotFound
  | InsufficientBalance int int
  | BalanceAdded int int int
  | BalanceDeducted int int int
  | BalanceSet int int int
  | OperationsRequired
  | BulkDone "bulk_result list" "(ident option \<times> bulk_failure) list"
  | DepositNotFound
  | DepositAlreadyProcessed
  | DepositApproved
  | WithdrawalNotFound
  | WithdrawalRejected
  | IncompleteData
  | IncompleteBankInfo
  | PurchaseDone ident int int bonus_results
  | WithdrawalRequested ident int

datatype response =
    Response (status: nat) (success: bool) (message: message)
  | NoResponse js_error

section \<open>The clock of the server\<close>

definition hour_ms :: int where
  "hour_ms = 1000 * 60 * 60"

definition day_ms :: int where
  "day_ms = 1000 * 60 * 60 * 24"

text \<open>
  A \<^verbatim>\<open>Date\<close> is a number of milliseconds since the epoch, and differences of dates
  are differences of these numbers. \<^verbatim>\<open>getHours\<close>, \<^verbatim>\<open>setHours\<close>, \<^verbatim>\<open>getDate\<close> and
  \<^verbatim>\<open>setDate\<close> work on the wall clock of the time zone of the process. ECMAScript
  defines them from the offset of the zone, \<^verbatim>\<open>LocalTZA\<close>, which is asked either at an
  instant or at a reading of the wall clock: \<^verbatim>\<open>LocalTime(t) = t + LocalTZA(t, true)\<close> and
  \<^verbatim>\<open>UTC(t) = t - LocalTZA(t, false)\<close>. A zone is the pair of these two functions. Dates
  are taken to stay within the range of \<^verbatim>\<open>Date\<close>, so that \<^verbatim>\<open>TimeClip\<close> changes nothing.
\<close>

record zone =
  tza_utc :: "time \<Rightarrow> int"
  tza_local :: "time \<Rightarrow> int"

definition LocalTime :: "zone \<Rightarrow> time \<Rightarrow> time" where
  "LocalTime z t = t + tza_utc z t"

definition UTC :: "zone \<Rightarrow> time \<Rightarrow> time" where
  "UTC z t = t - tza_local z t"

text \<open>
  \<^verbatim>\<open>d.setHours(d.getHours() + n)\<close>: the hour field of the wall clock is replaced by
  itself plus \<open>n\<close>, the other fields are kept, and the reading is converted back. On the
  wall clock this is \<open>n\<close> times 3600000 milliseconds later; as an instant it is
  \<open>n\<close> hours later only when the offset of the zone is the same at both ends.
\<close>

definition setHours_plus :: "zone \<Rightarrow> int \<Rightarrow> time \<Rightarrow> time" where
  "setHours_plus z n d = UTC z (LocalTime z d + n * hour_ms)"

text \<open>\<^verbatim>\<open>d.setDate(d.getDate() + n)\<close>, in the same way with days of the wall clock.\<close>

definition setDate_plus :: "zone \<Rightarrow> int \<Rightarrow> time \<Rightarrow> time" where
  "setDate_plus z n d = UTC z (LocalTime z d + n * day_ms)"

section \<open>The Payout Engine: \<^verbatim>\<open>/api/process-daily-payouts\<close>\<close>

text \<open>JavaScript's \<^verbatim>\<open>x || d\<close> on a nullable number: \<^verbatim>\<open>null\<close> and \<^verbatim>\<open>0\<close> are falsy.\<close>

definition or_default :: "int option \<Rightarrow> int \<Rightarrow> int" where
  "or_default x d = (case x of None \<Rightarrow> d | Some v \<Rightarrow> if v = 0 then d else v)"

text \<open>The \<^verbatim>\<open>where\<close> clause of the scan for due purchases.\<close>

definition is_due :: "time \<Rightarrow> purchase \<Rightarrow> bool" where
  "is_due now p \<longleftrightarrow>
     p_status p = ''active'' \<and> p_next_payout p \<le> now \<and> now < p_expiry_date p"

record payout_result =
  r_purchase_id :: ident
  r_user_id :: ident
  r_status :: string
  r_amount :: "int option"
  r_next_payout :: "time option"

record payout_acc =
  processedCount :: nat
  totalAmount :: int
  results :: "payout_result list"
  errors :: "(ident \<times> ident \<times> js_error) list"

text \<open>The atomic unit of one credit (lines 211 to 263).\<close>

definition payout_credit :: "time \<Rightarrow> purchase \<Rightarrow> time \<Rightarrow> int \<Rightarrow> unit prisma" where
  "payout_credit now purchase nextPayout dailyReturn =
     dollar_transaction
       (andThen (user_update_increment (p_user_id purchase) dailyReturn) (\<lambda>updatedUser.
        andThen (purchase_update (p_id purchase)
                   (\<lambda>q. q\<lparr>p_next_payout := nextPayout,
                           p_total_earned := p_total_earned q + dailyReturn,
                           p_payout_count := p_payout_count q + 1,
                           p_last_payout := Some now\<rparr>)) (\<lambda>_.
        andThen (transaction_create
                   \<lparr>t_user_id = p_user_id purchase, t_type = ''daily_payout_auto'',
                    t_amount = dailyReturn, t_balance_after = u_saldo updatedUser,
                    t_created_at = now\<rparr>) (\<lambda>_.
        systemLog_create
          \<lparr>l_action = ''AUTO_DAILY_PAYOUT'', l_user_id = Some (p_user_id purchase),
           l_created_at = now\<rparr>))))"

text \<open>
  The body of the \<^verbatim>\<open>for\<close> loop inside its \<^verbatim>\<open>try\<close> (lines 176 to 277). Its first statement
  logs \<^verbatim>\<open>purchase.user.mobile\<close>, which throws a TypeError when the purchase has no owner
  row. The next payout is the stored one moved by 24 hours of the wall clock.
\<close>

definition payout_try ::
  "zone \<Rightarrow> time \<Rightarrow> purchase \<Rightarrow> payout_acc \<Rightarrow> payout_acc prisma" where
  "payout_try z now purchase acc =
     andThen (user_findUnique (p_user_id purchase)) (\<lambda>owner.
     (case owner of
        None \<Rightarrow> throw (Error ''TypeError'')
      | Some _ \<Rightarrow>
          (let nextPayout = setHours_plus z 24 (p_next_payout purchase);
               daysPassed = (now - p_purchase_date purchase) div day_ms;
               remainingDays = or_default (p_cycle_days purchase) 30 - daysPassed
           in if remainingDays \<le> 0 then
                andThen (purchase_update (p_id purchase)
                           (\<lambda>q. q\<lparr>p_status := ''completed'', p_completed_at := Some now\<rparr>)) (\<lambda>_.
                ret (acc\<lparr>results := results acc @
                       [\<lparr>r_purchase_id = p_id purchase, r_user_id = p_user_id purchase,
                         r_status = ''completed'', r_amount = None, r_next_payout = None\<rparr>]\<rparr>))
              else
                let dailyReturn = or_default (p_daily_return purchase) 13
                in andThen (payout_credit now purchase nextPayout dailyReturn) (\<lambda>_.
                   ret (acc\<lparr>processedCount := Suc (processedCount acc),
                            totalAmount := totalAmount acc + dailyReturn,
                            results := results acc @
                              [\<lparr>r_purchase_id = p_id purchase, r_user_id = p_user_id purchase,
                                r_status = ''success'', r_amount = Some dailyReturn,
                                r_next_payout = Some nextPayout\<rparr>]\<rparr>)))))"

text \<open>The \<^verbatim>\<open>catch\<close> of the loop body (lines 278 to 285).\<close>

definition payout_step ::
  "zone \<Rightarrow> time \<Rightarrow> purchase \<Rightarrow> payout_acc \<Rightarrow> world \<Rightarrow> payout_acc \<times> world" where
  "payout_step z now purchase acc w =
     (case payout_try z now purchase acc w of
        (Inr acc', w') \<Rightarrow> (acc', w')
      | (Inl purchaseError, w') \<Rightarrow>
          (acc\<lparr>errors := errors acc @ [(p_id purchase, p_user_id purchase, purchaseError)]\<rparr>, w'))"

fun payout_loop ::
  "zone \<Rightarrow> time \<Rightarrow> purchase list \<Rightarrow> payout_acc \<Rightarrow> world \<Rightarrow> payout_acc \<times> world" where
  "payout_loop z now [] acc w = (acc, w)"
| "payout_loop z now (purchase # rest) acc w =
     (case payout_step z now purchase acc w of (acc', w') \<Rightarrow> payout_loop z now rest acc' w')"

definition process_daily_payouts :: "zone \<Rightarrow> time \<Rightarrow> world \<Rightarrow> response \<times> world" where
  "process_daily_payouts z now w =
     (let duePurchases = filter (is_due now) (purchases (fst w))
      in if length duePurchases = 0 then (Response 200 True NothingToProcess, w)
         else
           case payout_loop z now duePurchases
                  \<lparr>processedCount = 0, totalAmount = 0, results = [], errors = []\<rparr> w of
             (acc, w1) \<Rightarrow>
               (case systemLog_create
                       \<lparr>l_action = ''AUTO_PAYOUTS_COMPLETED'', l_user_id = None,
                        l_created_at = now\<rparr> w1 of
                  (Inr _, w2) \<Rightarrow>
                    (Response 200 True (PayoutsDone (processedCount acc) (totalAmount acc)), w2)
                | (Inl error, w2) \<Rightarrow>
                    (case systemLog_create
                            \<lparr>l_action = ''AUTO_PAYOUTS_ERROR'', l_user_id = None,
                             l_created_at = now\<rparr> w2 of
                       (Inr _, w3) \<Rightarrow> (Response 500 False (InternalError error), w3)
                     | (Inl e2, w3) \<Rightarrow> (NoResponse e2, w3))))"

section \<open>The older payout route: \<^verbatim>\<open>/api/process-payouts\<close>\<close>

text \<open>
  Lines 5728 to 5896. It scans for the same due purchases, but its next payout is
  \<^verbatim>\<open>new Date()\<close> moved by 24 hours of the wall clock, its Transaction has the type
  \<^verbatim>\<open>payout\<close>, a failed purchase is pushed onto \<^verbatim>\<open>results\<close>, and there is no summary log.
\<close>

definition process_payouts_credit :: "time \<Rightarrow> purchase \<Rightarrow> time \<Rightarrow> int \<Rightarrow> unit prisma" where
  "process_payouts_credit now purchase nextPayout dailyReturn =
     dollar_transaction
       (andThen (user_findUnique (p_user_id purchase)) (\<lambda>currentUser.
        andThen (user_update_increment (p_user_id purchase) dailyReturn) (\<lambda>updatedUser.
        andThen (purchase_update (p_id purchase)
                   (\<lambda>q. q\<lparr>p_next_payout := nextPayout,
                           p_total_earned := p_total_earned q + dailyReturn,
                           p_payout_count := p_payout_count q + 1,
                           p_last_payout := Some now\<rparr>)) (\<lambda>_.
        andThen (transaction_create
                   \<lparr>t_user_id = p_user_id purchase, t_type = ''payout'',
                    t_amount = dailyReturn, t_balance_after = u_saldo updatedUser,
                    t_created_at = now\<rparr>) (\<lambda>_.
        systemLog_create
          \<lparr>l_action = ''DAILY_PAYOUT'', l_user_id = Some (p_user_id purchase),
           l_created_at = now\<rparr>)))))"

definition process_payouts_try ::
  "zone \<Rightarrow> time \<Rightarrow> purchase \<Rightarrow> payout_acc \<Rightarrow> payout_acc prisma" where
  "process_payouts_try z now purchase acc =
     (let nextPayout = setHours_plus z 24 now;
          daysPassed = (now - p_purchase_date purchase) div day_ms;
          remainingDays = or_default (p_cycle_days purchase) 30 - daysPassed
      in if remainingDays \<le> 0 then
           andThen (purchase_update (p_id purchase)
                      (\<lambda>q. q\<lparr>p_status := ''completed'', p_completed_at := Some now\<rparr>)) (\<lambda>_.
           ret (acc\<lparr>results := results acc @
                  [\<lparr>r_purchase_id = p_id purchase, r_user_id = p_user_id purchase,
                    r_status = ''completed'', r_amount = None, r_next_payout = None\<rparr>]\<rparr>))
         else
           let dailyReturn = or_default (p_daily_return purchase) 13
           in andThen (process_payouts_credit now purchase nextPayout dailyReturn) (\<lambda>_.
              ret (acc\<lparr>processedCount := Suc (processedCount acc),
                       totalAmount := totalAmount acc + dailyReturn,
                       results := results acc @
                         [\<lparr>r_purchase_id = p_id purchase, r_user_id = p_user_id purchase,
                           r_status = ''success'', r_amount = Some dailyReturn,
                           r_next_payout = Some nextPayout\<rparr>]\<rparr>)))"

definition process_payouts_step ::
  "zone \<Rightarrow> time \<Rightarrow> purchase \<Rightarrow> payout_acc \<Rightarrow> world \<Rightarrow> payout_acc \<times> world" where
  "process_payouts_step z now purchase acc w =
     (case process_payouts_try z now purchase acc w of
        (Inr acc', w') \<Rightarrow> (acc', w')
      | (Inl purchaseError, w') \<Rightarrow>
          (acc\<lparr>results := results acc @
             [\<lparr>r_purchase_id = p_id purchase, r_user_id = p_user_id purchase,
               r_status = ''error'', r_amount = None, r_next_payout = None\<rparr>]\<rparr>, w'))"

fun process_payouts_loop ::
  "zone \<Rightarrow> time \<Rightarrow> purchase list \<Rightarrow> payout_acc \<Rightarrow> world \<Rightarrow> payout_acc \<times> world" where
  "process_payouts_loop z now [] acc w = (acc, w)"
| "process_payouts_loop z now (purchase # rest) acc w =
     (case process_payouts_step z now purchase acc w of
        (acc', w') \<Rightarrow> process_payouts_loop z now rest acc' w')"

definition process_payouts :: "zone \<Rightarrow> time \<Rightarrow> world \<Rightarrow> response \<times> world" where
  "process_payouts z now w =
     (let duePurchases = filter (is_due now) (purchases (fst w))
      in case process_payouts_loop z now duePurchases
                \<lparr>processedCount = 0, totalAmount = 0, results = [], errors = []\<rparr> w of
           (acc, w1) \<Rightarrow>
             (Response 200 True (PayoutsDone (processedCount acc) (totalAmount acc)), w1))"

section \<open>Deposit approval and withdrawal rejection\<close>

text \<open>
  \<^verbatim>\<open>PUT /api/admin/deposit/:id/approve\<close>, lines 1659 to 1796 (the first handler registered
  for the route). Before the transaction it logs \<^verbatim>\<open>deposit.user.mobile\<close>, a TypeError when
  the deposit has no owner row. The callback of the transaction is
  \<open>approve_deposit_tx\<close>. After the
  transaction the handler builds its answer from the identifier \<^verbatim>\<open>result\<close>, which is
  declared nowhere in scope (the transaction's value is bound to \<^verbatim>\<open>transaction\<close>):
  evaluating it throws a ReferenceError inside the \<^verbatim>\<open>try\<close>, and the \<^verbatim>\<open>catch\<close> answers 500.
  The \<^verbatim>\<open>catch\<close> picks one of three messages by the error's code; all three are a 500
  with \<^verbatim>\<open>success: false\<close>.
\<close>

definition approve_deposit_tx :: "time \<Rightarrow> ident \<Rightarrow> deposit \<Rightarrow> (deposit \<times> int) prisma" where
  "approve_deposit_tx now did deposit =
     andThen (user_update_increment (d_user_id deposit) (d_amount deposit)) (\<lambda>updatedUser.
     andThen (deposit_update did
                (\<lambda>d. d\<lparr>d_status := ''completed'', d_processed_at := Some now\<rparr>)) (\<lambda>updatedDeposit.
     andThen (transaction_create
                \<lparr>t_user_id = d_user_id deposit, t_type = ''deposit'',
                 t_amount = d_amount deposit, t_balance_after = u_saldo updatedUser,
                 t_created_at = now\<rparr>) (\<lambda>transactionRecord.
     andThen (systemLog_create
                \<lparr>l_action = ''DEPOSIT_APPROVED'', l_user_id = Some (d_user_id deposit),
                 l_created_at = now\<rparr>) (\<lambda>_.
     ret (updatedDeposit, u_saldo updatedUser)))))"

definition approve_deposit :: "time \<Rightarrow> ident \<Rightarrow> world \<Rightarrow> response \<times> world" where
  "approve_deposit now did w =
     (case deposits (fst w) did of
        None \<Rightarrow> (Response 404 False DepositNotFound, w)
      | Some deposit \<Rightarrow>
          if d_status deposit = ''completed''
          then (Response 400 False DepositAlreadyProcessed, w)
          else
            (case andThen (user_findUnique (d_user_id deposit)) (\<lambda>owner.
                  (case owner of
                     None \<Rightarrow> throw (Error ''TypeError'')
                   | Some _ \<Rightarrow>
                       andThen (dollar_transaction (approve_deposit_tx now did deposit))
                         (\<lambda>transaction.
                       andThen (throw (ReferenceError ''result'') :: unit prisma) (\<lambda>result.
                       ret (Response 200 True DepositApproved))))) w of
               (Inr answer, w') \<Rightarrow> (answer, w')
             | (Inl error, w') \<Rightarrow> (Response 500 False (InternalError error), w')))"

text \<open>\<^verbatim>\<open>PUT /api/admin/withdrawal/:id/reject\<close>, lines 1909 to 1990.\<close>

definition reject_withdrawal_tx :: "time \<Rightarrow> ident \<Rightarrow> withdrawal \<Rightarrow> unit prisma" where
  "reject_withdrawal_tx now wid withdrawal =
     andThen (user_update_increment (w_user_id withdrawal) (w_amount withdrawal)) (\<lambda>updatedUser.
     andThen (withdrawal_update wid
                (\<lambda>x. x\<lparr>w_status := ''failed'', w_processed_at := Some now\<rparr>)) (\<lambda>_.
     andThen (transaction_create
                \<lparr>t_user_id = w_user_id withdrawal, t_type = ''withdrawal_refund'',
                 t_amount = w_amount withdrawal, t_balance_after = u_saldo updatedUser,
                 t_created_at = now\<rparr>) (\<lambda>_.
     systemLog_create
       \<lparr>l_action = ''WITHDRAWAL_REJECTED'', l_user_id = Some (w_user_id withdrawal),
        l_created_at = now\<rparr>)))"

definition reject_withdrawal :: "time \<Rightarrow> ident \<Rightarrow> world \<Rightarrow> response \<times> world" where
  "reject_withdrawal now wid w =
     (case withdrawals (fst w) wid of
        None \<Rightarrow> (Response 404 False WithdrawalNotFound, w)
      | Some withdrawal \<Rightarrow>
          (case dollar_transaction (reject_withdrawal_tx now wid withdrawal) w of
             (Inr _, w') \<Rightarrow> (Response 200 True WithdrawalRejected, w')
           | (Inl error, w') \<Rightarrow> (Response 500 False (InternalError error), w')))"

section \<open>Administrator balance adjustments\<close>

text \<open>
  \<^verbatim>\<open>POST /api/admin2/users/:id/add-balance\<close> (lines 2102 to 2191),
  \<^verbatim>\<open>deduct-balance\<close> (2921 to 3018) and \<^verbatim>\<open>set-balance\<close> (3021 to 3105). Each runs its writes
  in one \<^verbatim>\<open>$transaction\<close>. A user row that has vanished when the handler reads the new
  balance makes \<^verbatim>\<open>updatedUser.saldo\<close> throw a TypeError.
\<close>

definition add_balance_tx :: "time \<Rightarrow> ident \<Rightarrow> int \<Rightarrow> unit prisma" where
  "add_balance_tx now uid amount =
     andThen (user_update_increment uid amount) (\<lambda>updatedUser.
     andThen (transaction_create
                \<lparr>t_user_id = uid, t_type = ''admin_addition'', t_amount = amount,
                 t_balance_after = u_saldo updatedUser, t_created_at = now\<rparr>) (\<lambda>_.
     systemLog_create
       \<lparr>l_action = ''ADMIN_BALANCE_ADD'', l_user_id = Some uid, l_created_at = now\<rparr>))"

definition add_balance :: "time \<Rightarrow> ident \<Rightarrow> int option \<Rightarrow> world \<Rightarrow> response \<times> world" where
  "add_balance now uid amount w =
     (case amount of
        None \<Rightarrow> (Response 400 False InvalidAmount, w)
      | Some a \<Rightarrow>
          if a = 0 \<or> a \<le> 0 then (Response 400 False InvalidAmount, w)
          else
            (case users (fst w) uid of
               None \<Rightarrow> (Response 404 False UserNotFound, w)
             | Some user \<Rightarrow>
                 (case andThen (dollar_transaction (add_balance_tx now uid a)) (\<lambda>_.
                       andThen (user_findUnique uid) (\<lambda>updatedUser.
                       (case updatedUser of
                          None \<Rightarrow> throw (Error ''TypeError'')
                        | Some u' \<Rightarrow>
                            ret (Response 200 True
                                   (BalanceAdded (u_saldo user) (u_saldo u') a))))) w of
                    (Inr answer, w') \<Rightarrow> (answer, w')
                  | (Inl error, w') \<Rightarrow> (Response 500 False (InternalError error), w'))))"

definition deduct_balance_tx :: "time \<Rightarrow> ident \<Rightarrow> int \<Rightarrow> unit prisma" where
  "deduct_balance_tx now uid amount =
     andThen (user_update_decrement uid amount) (\<lambda>updatedUser.
     andThen (transaction_create
                \<lparr>t_user_id = uid, t_type = ''admin_deduction'', t_amount = - amount,
                 t_balance_after = u_saldo updatedUser, t_created_at = now\<rparr>) (\<lambda>_.
     systemLog_create
       \<lparr>l_action = ''ADMIN_BALANCE_DEDUCT'', l_user_id = Some uid, l_created_at = now\<rparr>))"

definition deduct_balance :: "time \<Rightarrow> ident \<Rightarrow> int option \<Rightarrow> world \<Rightarrow> response \<times> world" where
  "deduct_balance now uid amount w =
     (case amount of
        None \<Rightarrow> (Response 400 False InvalidAmount, w)
      | Some a \<Rightarrow>
          if a = 0 \<or> a \<le> 0 then (Response 400 False InvalidAmount, w)
          else
            (case users (fst w) uid of
               None \<Rightarrow> (Response 404 False UserNotFound, w)
             | Some user \<Rightarrow>
                 if u_saldo user < a
                 then (Response 400 False (InsufficientBalance (u_saldo user) a), w)
                 else
                   (case andThen (dollar_transaction (deduct_balance_tx now uid a)) (\<lambda>_.
                         andThen (user_findUnique uid) (\<lambda>updatedUser.
                         (case updatedUser of
                            None \<Rightarrow> throw (Error ''TypeError'')
                          | Some u' \<Rightarrow>
                              ret (Response 200 True
                                     (BalanceDeducted (u_saldo user) (u_saldo u') a))))) w of
                      (Inr answer, w') \<Rightarrow> (answer, w')
                    | (Inl error, w') \<Rightarrow> (Response 500 False (InternalError error), w'))))"

definition set_balance_tx :: "time \<Rightarrow> ident \<Rightarrow> int \<Rightarrow> string \<Rightarrow> int \<Rightarrow> unit prisma" where
  "set_balance_tx now uid new_balance transactionType difference =
     andThen (user_update_saldo uid new_balance) (\<lambda>updatedUser.
     andThen (transaction_create
                \<lparr>t_user_id = uid, t_type = transactionType, t_amount = difference,
                 t_balance_after = new_balance, t_created_at = now\<rparr>) (\<lambda>_.
     systemLog_create
       \<lparr>l_action = ''ADMIN_SET_BALANCE'', l_user_id = Some uid, l_created_at = now\<rparr>))"

definition set_balance :: "time \<Rightarrow> ident \<Rightarrow> int option \<Rightarrow> world \<Rightarrow> response \<times> world" where
  "set_balance now uid new_balance w =
     (case new_balance of
        None \<Rightarrow> (Response 400 False InvalidNewBalance, w)
      | Some nb \<Rightarrow>
          if nb < 0 then (Response 400 False InvalidNewBalance, w)
          else
            (case users (fst w) uid of
               None \<Rightarrow> (Response 404 False UserNotFound, w)
             | Some user \<Rightarrow>
                 (let difference = nb - u_saldo user;
                      transactionType =
                        (if difference \<ge> 0 then ''admin_addition'' else ''admin_deduction'')
                  in case dollar_transaction
                            (set_balance_tx now uid nb transactionType difference) w of
                       (Inr _, w') \<Rightarrow>
                         (Response 200 True (BalanceSet (u_saldo user) nb difference), w')
                     | (Inl error, w') \<Rightarrow> (Response 500 False (InternalError error), w'))))"

text \<open>
  \<^verbatim>\<open>POST /api/admin2/users/bulk-balance\<close>, lines 3108 to 3323. Each operation is handled
  inside its own \<^verbatim>\<open>try\<close>; the balance update and the Transaction insert are two
  separate calls on \<^verbatim>\<open>prisma\<close>, with no \<^verbatim>\<open>$transaction\<close> around them.
\<close>

record bulk_op =
  op_user_id :: "ident option"
  op_action :: "string option"
  op_amount :: "int option"

record bulk_acc =
  bulk_results :: "bulk_result list"
  bulk_errors :: "(ident option \<times> bulk_failure) list"

definition push_error :: "bulk_acc \<Rightarrow> ident option \<Rightarrow> bulk_failure \<Rightarrow> bulk_acc" where
  "push_error acc uid e = acc\<lparr>bulk_errors := bulk_errors acc @ [(uid, e)]\<rparr>"

definition push_result :: "bulk_acc \<Rightarrow> bulk_result \<Rightarrow> bulk_acc" where
  "push_result acc r = acc\<lparr>bulk_results := bulk_results acc @ [r]\<rparr>"

definition bulk_apply ::
  "time \<Rightarrow> ident \<Rightarrow> string \<Rightarrow> int \<Rightarrow> user \<Rightarrow> bulk_acc \<Rightarrow> bulk_acc prisma" where
  "bulk_apply now user_id action amount user acc =
     (if action = ''add'' then
        andThen (user_update_increment user_id amount) (\<lambda>updatedUser.
        andThen (transaction_create
                   \<lparr>t_user_id = user_id, t_type = ''admin_addition'', t_amount = amount,
                    t_balance_after = u_saldo updatedUser, t_created_at = now\<rparr>) (\<lambda>_.
        ret (push_result acc
               \<lparr>b_user_id = user_id, b_action = ''add'', b_amount = amount,
                b_old_balance = u_saldo user, b_new_balance = u_saldo updatedUser\<rparr>)))
      else if action = ''deduct'' then
        (if u_saldo user < amount
         then ret (push_error acc (Some user_id) (InsufficientFunds (u_saldo user)))
         else
           andThen (user_update_decrement user_id amount) (\<lambda>updatedUser.
           andThen (transaction_create
                      \<lparr>t_user_id = user_id, t_type = ''admin_deduction'', t_amount = - amount,
                       t_balance_after = u_saldo updatedUser, t_created_at = now\<rparr>) (\<lambda>_.
           ret (push_result acc
                  \<lparr>b_user_id = user_id, b_action = ''deduct'', b_amount = amount,
                   b_old_balance = u_saldo user, b_new_balance = u_saldo updatedUser\<rparr>))))
      else if action = ''set'' then
        andThen (user_update_saldo user_id amount) (\<lambda>updatedUser.
        (let difference = amount - u_saldo user;
             transactionType =
               (if difference \<ge> 0 then ''admin_addition'' else ''admin_deduction'')
         in andThen (transaction_create
                       \<lparr>t_user_id = user_id, t_type = transactionType, t_amount = difference,
                        t_balance_after = amount, t_created_at = now\<rparr>) (\<lambda>_.
            ret (push_result acc
                   \<lparr>b_user_id = user_id, b_action = ''set'', b_amount = amount,
                    b_old_balance = u_saldo user, b_new_balance = u_saldo updatedUser\<rparr>))))
      else ret (push_error acc (Some user_id) InvalidAction))"

definition bulk_try :: "time \<Rightarrow> bulk_op \<Rightarrow> bulk_acc \<Rightarrow> bulk_acc prisma" where
  "bulk_try now op acc =
     (case (op_user_id op, op_action op, op_amount op) of
        (Some user_id, Some action, Some amount) \<Rightarrow>
          if action = [] \<or> amount = 0 \<or> amount \<le> 0
          then ret (push_error acc (op_user_id op) InvalidData)
          else
            andThen (user_findUnique user_id) (\<lambda>found.
            (case found of
               None \<Rightarrow> ret (push_error acc (Some user_id) NoSuchUser)
             | Some user \<Rightarrow> bulk_apply now user_id action amount user acc))
      | _ \<Rightarrow> ret (push_error acc (op_user_id op) InvalidData))"

definition bulk_step :: "time \<Rightarrow> bulk_op \<Rightarrow> bulk_acc \<Rightarrow> world \<Rightarrow> bulk_acc \<times> world" where
  "bulk_step now op acc w =
     (case bulk_try now op acc w of
        (Inr acc', w') \<Rightarrow> (acc', w')
      | (Inl error, w') \<Rightarrow> (push_error acc (op_user_id op) (Thrown error), w'))"

fun bulk_loop :: "time \<Rightarrow> bulk_op list \<Rightarrow> bulk_acc \<Rightarrow> world \<Rightarrow> bulk_acc \<times> world" where
  "bulk_loop now [] acc w = (acc, w)"
| "bulk_loop now (op # rest) acc w =
     (case bulk_step now op acc w of (acc', w') \<Rightarrow> bulk_loop now rest acc' w')"

definition bulk_balance :: "time \<Rightarrow> bulk_op list \<Rightarrow> world \<Rightarrow> response \<times> world" where
  "bulk_balance now operations w =
     (if length operations = 0 then (Response 400 False OperationsRequired, w)
      else
        (case bulk_loop now operations \<lparr>bulk_results = [], bulk_errors = []\<rparr> w of
           (acc, w1) \<Rightarrow>
             (case systemLog_create
                     \<lparr>l_action = ''BULK_BALANCE_ADJUSTMENT'', l_user_id = None,
                      l_created_at = now\<rparr> w1 of
                (Inr _, w2) \<Rightarrow>
                  (Response 200 True (BulkDone (bulk_results acc) (bulk_errors acc)), w2)
              | (Inl error, w2) \<Rightarrow> (Response 500 False (InternalError error), w2))))"

section \<open>The referral network and the Referral Bonus Distributor\<close>

text \<open>
  \<open>createReferralNetwork\<close> (lines 4276 to 4321) is called by \<^verbatim>\<open>/register\<close> for a new user
  with an inviter; it is the only place that inserts ReferralLevel rows. Each error is
  caught and logged.
\<close>

definition createReferralNetwork_try :: "ident \<Rightarrow> ident \<Rightarrow> unit prisma" where
  "createReferralNetwork_try inviterId newUserId =
     andThen (referralLevel_create
                \<lparr>rl_referrer_id = inviterId, rl_user_id = newUserId, rl_level = 1\<rparr>) (\<lambda>_.
     andThen (user_findUnique inviterId) (\<lambda>level2Inviter.
     (case level2Inviter of
        None \<Rightarrow> ret ()
      | Some l2 \<Rightarrow>
          (case u_inviter_id l2 of
             None \<Rightarrow> ret ()
           | Some l2_inviter_id \<Rightarrow>
               andThen (referralLevel_create
                          \<lparr>rl_referrer_id = l2_inviter_id, rl_user_id = newUserId,
                           rl_level = 2\<rparr>) (\<lambda>_.
               andThen (user_findUnique l2_inviter_id) (\<lambda>level3Inviter.
               (case level3Inviter of
                  None \<Rightarrow> ret ()
                | Some l3 \<Rightarrow>
                    (case u_inviter_id l3 of
                       None \<Rightarrow> ret ()
                     | Some l3_inviter_id \<Rightarrow>
                         referralLevel_create
                           \<lparr>rl_referrer_id = l3_inviter_id, rl_user_id = newUserId,
                            rl_level = 3\<rparr>))))))))"

definition createReferralNetwork :: "ident \<Rightarrow> ident \<Rightarrow> world \<Rightarrow> world" where
  "createReferralNetwork inviterId newUserId w =
     snd (createReferralNetwork_try inviterId newUserId w)"

text \<open>
  \<open>distributeReferralBonuses\<close>, lines 5345 to 5494. The purchase route passes it the
  client \<^verbatim>\<open>prisma\<close> itself as \<^verbatim>\<open>tx\<close>, so each of its writes is a call of its own. The
  source multiplies the amount by the doubles 0.25, 0.02 and 0.01 and applies
  \<^verbatim>\<open>Math.floor\<close>; for whole amounts that is the floor of the exact product, which is what
  the model computes. A referral row comes with its \<^verbatim>\<open>referrer\<close> as the query joined it.
\<close>

definition bonusPercentages :: "int \<Rightarrow> rat option" where
  "bonusPercentages level =
     (if level = 1 then Some (25 / 100)
      else if level = 2 then Some (2 / 100)
      else if level = 3 then Some (1 / 100)
      else None)"

definition add_bonus :: "bonus_results \<Rightarrow> int \<Rightarrow> ident \<Rightarrow> int \<Rightarrow> bonus_results" where
  "add_bonus acc level sponsor_id bonusAmount =
     (let acc1 = (if level = 1 then acc\<lparr>level1 := level1 acc + bonusAmount\<rparr>
                  else if level = 2 then acc\<lparr>level2 := level2 acc + bonusAmount\<rparr>
                  else acc\<lparr>level3 := level3 acc + bonusAmount\<rparr>)
      in acc1\<lparr>total := total acc1 + bonusAmount,
              details := details acc1 @
                [\<lparr>bd_level = level, bd_sponsor_id = sponsor_id, bd_amount = bonusAmount\<rparr>]\<rparr>)"

definition bonus_credit ::
  "time \<Rightarrow> ident \<Rightarrow> int \<Rightarrow> int \<Rightarrow> rat \<Rightarrow> ident \<Rightarrow> int \<Rightarrow> bonus_results \<Rightarrow> bonus_results prisma"
  where
  "bonus_credit now purchaserId purchaseAmount level bonusPercentage sponsor_id bonusAmount acc =
     andThen (user_findUnique sponsor_id) (\<lambda>currentSponsor.
     (case currentSponsor of
        None \<Rightarrow> throw (Error ''TypeError'')
      | Some _ \<Rightarrow>
          andThen (user_update_increment sponsor_id bonusAmount) (\<lambda>updatedSponsor.
          andThen (transaction_create
                     \<lparr>t_user_id = sponsor_id, t_type = ''referral_bonus'',
                      t_amount = bonusAmount, t_balance_after = u_saldo updatedSponsor,
                      t_created_at = now\<rparr>) (\<lambda>sponsorTransaction.
          andThen (referralBonus_create
                     \<lparr>rb_referrer_id = sponsor_id, rb_referred_user_id = purchaserId,
                      rb_level = level, rb_purchase_amount = purchaseAmount,
                      rb_bonus_amount = bonusAmount,
                      rb_bonus_percentage = bonusPercentage * 100,
                      rb_created_at = now\<rparr>) (\<lambda>_.
          ret (add_bonus acc level sponsor_id bonusAmount))))))"

definition bonus_step ::
  "time \<Rightarrow> ident \<Rightarrow> int \<Rightarrow> referral_level \<times> user option \<Rightarrow> bonus_results \<Rightarrow> world
   \<Rightarrow> bonus_results \<times> world" where
  "bonus_step now purchaserId purchaseAmount referral acc w =
     (case (bonusPercentages (rl_level (fst referral)), snd referral) of
        (Some bonusPercentage, Some sponsor) \<Rightarrow>
          (let bonusAmount = \<lfloor>of_int purchaseAmount * bonusPercentage\<rfloor>
           in if bonusAmount > 0 then
                (case bonus_credit now purchaserId purchaseAmount (rl_level (fst referral))
                        bonusPercentage (rl_referrer_id (fst referral)) bonusAmount acc w of
                   (Inr acc', w') \<Rightarrow> (acc', w')
                 | (Inl error, w') \<Rightarrow> (acc, w'))
              else (acc, w))
      | _ \<Rightarrow> (acc, w))"

fun bonus_loop ::
  "time \<Rightarrow> ident \<Rightarrow> int \<Rightarrow> (referral_level \<times> user option) list \<Rightarrow> bonus_results \<Rightarrow> world
   \<Rightarrow> bonus_results \<times> world" where
  "bonus_loop now purchaserId purchaseAmount [] acc w = (acc, w)"
| "bonus_loop now purchaserId purchaseAmount (referral # rest) acc w =
     (case bonus_step now purchaserId purchaseAmount referral acc w of
        (acc', w') \<Rightarrow> bonus_loop now purchaserId purchaseAmount rest acc' w')"

definition purchaserReferrers :: "database \<Rightarrow> ident \<Rightarrow> (referral_level \<times> user option) list" where
  "purchaserReferrers db purchaserId =
     map (\<lambda>r. (r, users db (rl_referrer_id r)))
       (sort_key rl_level (filter (\<lambda>r. rl_user_id r = purchaserId) (referralLevels db)))"

definition distributeReferralBonuses ::
  "time \<Rightarrow> ident \<Rightarrow> int \<Rightarrow> world \<Rightarrow> bonus_results \<times> world" where
  "distributeReferralBonuses now purchaserId purchaseAmount w =
     (let bonusResults = \<lparr>level1 = 0, level2 = 0, level3 = 0, total = 0, details = []\<rparr>;
          referrers = purchaserReferrers (fst w) purchaserId
      in if length referrers = 0 then (bonusResults, w)
         else bonus_loop now purchaserId purchaseAmount referrers bonusResults w)"

section \<open>The Purchase Workflow: \<^verbatim>\<open>/api/purchase\<close>\<close>

text \<open>
  Lines 5149 to 5342. The debit, the Purchase row and the Transaction row are one
  \<^verbatim>\<open>$transaction\<close>; an error in it is thrown again as a new \<^verbatim>\<open>Error\<close>. The bonus
  distribution and the summary log follow outside the transaction. The outer \<^verbatim>\<open>catch\<close>
  answers 400 when the error's message contains the word \<^verbatim>\<open>saldo\<close> and 500 otherwise;
  the messages of the store's errors are taken not to contain it. The first payout is
  \<^verbatim>\<open>new Date()\<close> moved by 24 hours of the wall clock and the expiry is \<^verbatim>\<open>new Date()\<close> moved
  by \<^verbatim>\<open>cycle_days || 30\<close> days of the wall clock; the several \<^verbatim>\<open>new Date()\<close> of one request
  are taken as one instant.
\<close>

record purchase_request =
  q_product_id :: "string option"
  q_product_name :: "string option"
  q_amount :: "int option"
  q_quantity :: "int option"
  q_daily_return :: "int option"
  q_cycle_days :: "int option"

definition rethrow_as :: "js_error \<Rightarrow> 'a prisma \<Rightarrow> 'a prisma" where
  "rethrow_as e m w = (case m w of (Inl _, w') \<Rightarrow> (Inl e, w') | (Inr x, w') \<Rightarrow> (Inr x, w'))"

definition never_throws :: "(world \<Rightarrow> 'a \<times> world) \<Rightarrow> 'a prisma" where
  "never_throws f w = (case f w of (x, w') \<Rightarrow> (Inr x, w'))"

definition purchase_tx ::
  "time \<Rightarrow> ident \<Rightarrow> string \<Rightarrow> string \<Rightarrow> int \<Rightarrow> purchase_request \<Rightarrow> time \<Rightarrow> time
   \<Rightarrow> (purchase \<times> user \<times> txn) prisma" where
  "purchase_tx now userId product_id product_name amount req nextPayout expiryDate =
     andThen (user_update_decrement userId amount) (\<lambda>updatedUser.
     andThen (purchase_create (\<lambda>new_id.
                \<lparr>p_id = new_id, p_user_id = userId, p_product_id = product_id,
                 p_product_name = product_name, p_amount = amount,
                 p_quantity = or_default (q_quantity req) 1,
                 p_daily_return = Some (or_default (q_daily_return req) 13),
                 p_cycle_days = Some (or_default (q_cycle_days req) 30),
                 p_purchase_date = now, p_next_payout = nextPayout,
                 p_expiry_date = expiryDate, p_status = ''active'',
                 p_total_earned = 0, p_payout_count = 0,
                 p_last_payout = None, p_completed_at = None\<rparr>)) (\<lambda>purchase.
     andThen (transaction_create
                \<lparr>t_user_id = userId, t_type = ''purchase'', t_amount = - amount,
                 t_balance_after = u_saldo updatedUser, t_created_at = now\<rparr>) (\<lambda>transactionRecord.
     ret (purchase, updatedUser, transactionRecord))))"

definition purchase_after ::
  "time \<Rightarrow> ident \<Rightarrow> int \<Rightarrow> purchase \<times> user \<times> txn \<Rightarrow> response prisma" where
  "purchase_after now userId amount committed =
     (case committed of (purchase, updatedUser, transactionRecord) \<Rightarrow>
        andThen (never_throws (distributeReferralBonuses now userId amount)) (\<lambda>bonusResults.
        andThen (systemLog_create
                   \<lparr>l_action = ''PURCHASE_COMPLETED'', l_user_id = Some userId,
                    l_created_at = now\<rparr>) (\<lambda>_.
        andThen (user_findUnique userId) (\<lambda>finalUser.
        (case finalUser of
           None \<Rightarrow> throw (Error ''TypeError'')
         | Some fu \<Rightarrow>
             ret (Response 200 True
                    (PurchaseDone (p_id purchase) (u_saldo updatedUser) (u_saldo fu)
                       bonusResults)))))))"

definition api_purchase ::
  "zone \<Rightarrow> time \<Rightarrow> ident \<Rightarrow> purchase_request \<Rightarrow> world \<Rightarrow> response \<times> world" where
  "api_purchase z now userId req w =
     (case (q_product_id req, q_product_name req, q_amount req) of
        (Some product_id, Some product_name, Some amount) \<Rightarrow>
          if product_id = [] \<or> product_name = [] \<or> amount = 0
          then (Response 400 False IncompleteData, w)
          else
            (case users (fst w) userId of
               None \<Rightarrow> (Response 404 False UserNotFound, w)
             | Some user \<Rightarrow>
                 if u_saldo user < amount
                 then (Response 400 False (InsufficientBalance (u_saldo user) amount), w)
                 else
                   (let nextPayout = setHours_plus z 24 now;
                        expiryDate = setDate_plus z (or_default (q_cycle_days req) 30) now
                    in case andThen
                              (rethrow_as (Error ''Falha na transacao'')
                                 (dollar_transaction
                                    (purchase_tx now userId product_id product_name amount req
                                       nextPayout expiryDate)))
                              (purchase_after now userId amount) w of
                         (Inr answer, w') \<Rightarrow> (answer, w')
                       | (Inl error, w') \<Rightarrow>
                           (Response 500 False (InternalError error), w')))
      | _ \<Rightarrow> (Response 400 False IncompleteData, w))"

section \<open>Withdrawal requests: \<^verbatim>\<open>/api/withdraw\<close>\<close>

text \<open>Lines 6877 to 6992. The bank details of the Withdrawal row are left out.\<close>

record withdraw_request =
  wr_amount :: "int option"
  wr_account_name :: "string option"
  wr_iban :: "string option"
  wr_bank_name :: "string option"

definition withdraw_tx :: "time \<Rightarrow> ident \<Rightarrow> int \<Rightarrow> (ident \<times> int) prisma" where
  "withdraw_tx now userId amount =
     andThen (user_update_decrement userId amount) (\<lambda>updatedUser.
     andThen (withdrawal_create
                \<lparr>w_user_id = userId, w_amount = amount, w_status = ''pending'',
                 w_processed_at = None\<rparr>) (\<lambda>withdrawal_id.
     andThen (transaction_create
                \<lparr>t_user_id = userId, t_type = ''withdrawal'', t_amount = - amount,
                 t_balance_after = u_saldo updatedUser, t_created_at = now\<rparr>) (\<lambda>_.
     andThen (systemLog_create
                \<lparr>l_action = ''WITHDRAWAL_REQUEST'', l_user_id = Some userId,
                 l_created_at = now\<rparr>) (\<lambda>_.
     ret (withdrawal_id, u_saldo updatedUser)))))"

definition api_withdraw :: "time \<Rightarrow> ident \<Rightarrow> withdraw_request \<Rightarrow> world \<Rightarrow> response \<times> world" where
  "api_withdraw now userId req w =
     (case wr_amount req of
        None \<Rightarrow> (Response 400 False InvalidAmount, w)
      | Some amount \<Rightarrow>
          if amount = 0 \<or> amount \<le> 0 then (Response 400 False InvalidAmount, w)
          else if falsy_str (wr_account_name req) \<or> falsy_str (wr_iban req)
                  \<or> falsy_str (wr_bank_name req)
          then (Response 400 False IncompleteBankInfo, w)
          else
            (case users (fst w) userId of
               None \<Rightarrow> (Response 404 False UserNotFound, w)
             | Some user \<Rightarrow>
                 if u_saldo user < amount
                 then (Response 400 False (InsufficientBalance (u_saldo user) amount), w)
                 else
                   (case dollar_transaction (withdraw_tx now userId amount) w of
                      (Inr (withdrawal_id, new_balance), w') \<Rightarrow>
                        (Response 200 True (WithdrawalRequested withdrawal_id new_balance), w')
                    | (Inl error, w') \<Rightarrow>
                        (Response 500 False (InternalError error), w'))))"

section \<open>Fixtures and the vocabulary of the theorems\<close>

text \<open>\<open>carried_out n outcomes\<close>: none of the next \<open>n\<close> store writes throws.\<close>

definition carried_out :: "nat \<Rightarrow> bool list \<Rightarrow> bool" where
  "carried_out n outcomes \<longleftrightarrow> True \<notin> set (take n outcomes)"

text \<open>
  \<open>only_touches S db db'\<close>: from \<open>db\<close> to \<open>db'\<close> only accounts in \<open>S\<close> changed, every
  new Transaction and ReferralBonus row belongs to an account in \<open>S\<close>, and the
  ReferralLevel rows, the purchases and the set of accounts are the same.
\<close>

definition only_touches :: "ident set \<Rightarrow> database \<Rightarrow> database \<Rightarrow> bool" where
  "only_touches S db db' \<longleftrightarrow>
     (\<forall>x. x \<notin> S \<longrightarrow> users db' x = users db x)
   \<and> (\<exists>new. transactions db' = transactions db @ new \<and> (\<forall>t \<in> set new. t_user_id t \<in> S))
   \<and> (\<exists>new. referralBonuses db' = referralBonuses db @ new
            \<and> (\<forall>b \<in> set new. rb_referrer_id b \<in> S))
   \<and> referralLevels db' = referralLevels db
   \<and> purchases db' = purchases db
   \<and> dom (users db') = dom (users db)"

text \<open>
  Three zones for the concrete examples: one whose offset is always \<open>c\<close>, one whose
  clocks, one hour ahead, are set back to offset 0 at the instant \<open>T\<close>, and one whose
  clocks, at offset 0, are put forward by one hour at the instant \<open>T\<close>. The hour of the
  wall clock that repeats or is skipped is read with the offset before the change, as
  ECMAScript prescribes.
\<close>

abbreviation fixed_zone :: "int \<Rightarrow> zone" where
  "fixed_zone c \<equiv> \<lparr>tza_utc = (\<lambda>t. c), tza_local = (\<lambda>t. c)\<rparr>"

abbreviation autumn_zone :: "time \<Rightarrow> zone" where
  "autumn_zone T \<equiv>
     \<lparr>tza_utc = (\<lambda>t. if t < T then hour_ms else 0),
      tza_local = (\<lambda>t. if t < T + hour_ms then hour_ms else 0)\<rparr>"

abbreviation spring_zone :: "time \<Rightarrow> zone" where
  "spring_zone T \<equiv>
     \<lparr>tza_utc = (\<lambda>t. if t < T then 0 else hour_ms),
      tza_local = (\<lambda>t. if t < T + hour_ms then 0 else hour_ms)\<rparr>"

text \<open>The empty store, from which the concrete examples are built.\<close>

abbreviation empty_db :: database where
  "empty_db \<equiv> \<lparr>users = Map.empty, purchases = [], transactions = [], systemLogs = [],
     deposits = Map.empty, withdrawals = Map.empty, referralLevels = [],
     referralBonuses = [], next_id = 1\<rparr>"

text \<open>An account with balance 500 and one position of account 1 in product 7.\<close>

abbreviation user500 :: user where
  "user500 \<equiv> \<lparr>u_saldo = 500, u_inviter_id = None\<rparr>"

abbreviation holding :: "int option \<Rightarrow> time \<Rightarrow> int \<Rightarrow> purchase" where
  "holding daily next_payout count \<equiv>
     \<lparr>p_id = 1, p_user_id = 1, p_product_id = ''7'', p_product_name = ''gold'',
      p_amount = 100, p_quantity = 1, p_daily_return = daily, p_cycle_days = Some 30,
      p_purchase_date = 0, p_next_payout = next_payout, p_expiry_date = 30 * day_ms,
      p_status = ''active'', p_total_earned = 0, p_payout_count = count,
      p_last_payout = None, p_completed_at = None\<rparr>"

text \<open>
  The request that buys that position for 100, and the store after account 1, holding
  500, has sent it at time 0 in the zone of offset 0: \<open>holding (Some 13) day_ms 0\<close> is
  the row the purchase route writes.
\<close>

abbreviation gold_request :: purchase_request where
  "gold_request \<equiv>
     \<lparr>q_product_id = Some ''7'', q_product_name = Some ''gold'', q_amount = Some 100,
      q_quantity = Some 1, q_daily_return = Some 13, q_cycle_days = Some 30\<rparr>"

abbreviation bought_db :: database where
  "bought_db \<equiv>
     empty_db\<lparr>users := [1 \<mapsto> \<lparr>u_saldo = 400, u_inviter_id = None\<rparr>],
       purchases := [holding (Some 13) day_ms 0],
       transactions := [\<lparr>t_user_id = 1, t_type = ''purchase'', t_amount = - 100,
                         t_balance_after = 400, t_created_at = 0\<rparr>],
       systemLogs := [\<lparr>l_action = ''PURCHASE_COMPLETED'', l_user_id = Some 1,
                       l_created_at = 0\<rparr>],
       next_id := 2\<rparr>"

text \<open>A chain of five accounts, each invited by the next: 1 by 2, 2 by 3, 3 by 4, 4 by 5.\<close>

abbreviation member :: "ident option \<Rightarrow> user" where
  "member inviter \<equiv> \<lparr>u_saldo = 500, u_inviter_id = inviter\<rparr>"

abbreviation upline_db :: database where
  "upline_db \<equiv> empty_db\<lparr>users := [1 \<mapsto> member (Some 2), 2 \<mapsto> member (Some 3),
                                    3 \<mapsto> member (Some 4), 4 \<mapsto> member (Some 5),
                                    5 \<mapsto> member None]\<rparr>"

text \<open>
  The chain with a sixth account, 10, invited by account 1 and holding 1000, before its
  ReferralLevel rows are written.
\<close>

abbreviation team_db :: database where
  "team_db \<equiv> empty_db\<lparr>users := [1 \<mapsto> member (Some 2), 2 \<mapsto> member (Some 3),
                                  3 \<mapsto> member (Some 4), 4 \<mapsto> member (Some 5),
                                  5 \<mapsto> member None,
                                  10 \<mapsto> \<lparr>u_saldo = 1000, u_inviter_id = Some 1\<rparr>]\<rparr>"

section \<open>Store writes that are carried out\<close>

lemma carried_out_nil [simp]: "carried_out n []"
  by (simp add: carried_out_def)

lemma carried_out_drop:
  assumes "carried_out m outcomes" and "k < m"
  shows "\<not> (\<exists>rest. drop k outcomes = True # rest)"
proof
  assume "\<exists>rest. drop k outcomes = True # rest"
  then obtain rest where r: "drop k outcomes = True # rest" by blast
  then have len: "k < length outcomes" by (cases "k < length outcomes") auto
  with r have "outcomes ! k = True"
    by (metis nth_via_drop)
  moreover have "outcomes ! k \<in> set (take m outcomes)"
    using len assms(2) by (metis in_set_conv_nth length_take min_less_iff_conj nth_take)
  ultimately show False using assms(1) by (simp add: carried_out_def)
qed

lemma store_write_drop:
  assumes "carried_out m outcomes" and "k < m"
  shows "store_write f (db, drop k outcomes) =
     (case f db of Inl e \<Rightarrow> (Inl e, (db, drop (Suc k) outcomes))
                 | Inr (x, db') \<Rightarrow> (Inr x, (db', drop (Suc k) outcomes)))"
proof -
  have t: "drop (Suc k) outcomes = tl (drop k outcomes)"
    by (simp add: drop_Suc tl_drop)
  show ?thesis
    using carried_out_drop[OF assms] unfolding t
    by (cases "drop k outcomes") (auto simp: store_write_def split: sum.splits bool.splits)
qed

lemma store_write_first:
  assumes "carried_out m outcomes" and "0 < m"
  shows "store_write f (db, outcomes) =
     (case f db of Inl e \<Rightarrow> (Inl e, (db, drop (Suc 0) outcomes))
                 | Inr (x, db') \<Rightarrow> (Inr x, (db', drop (Suc 0) outcomes)))"
  using store_write_drop[OF assms, of f db] by simp

lemma store_write_nil:
  "store_write f (db, []) =
     (case f db of Inl e \<Rightarrow> (Inl e, (db, [])) | Inr (x, db') \<Rightarrow> (Inr x, (db', [])))"
  by (simp add: store_write_def split: sum.splits)

lemma store_write_False:
  "store_write f (db, False # rest) =
     (case f db of Inl e \<Rightarrow> (Inl e, (db, rest)) | Inr (x, db') \<Rightarrow> (Inr x, (db', rest)))"
  by (simp add: store_write_def split: sum.splits)

lemma store_write_True:
  "store_write f (db, True # rest) = (Inl StoreError, (db, rest))"
  by (simp add: store_write_def)

lemmas store_write_simps = store_write_nil store_write_False store_write_True

text \<open>Three writes in a row: the first, second or third throws, or all three are carried out.\<close>

lemma three_writes_cases:
  obtains (f1) r1 where "outcomes = True # r1"
    | (f2) r2 where "outcomes = False # True # r2"
    | (f3) r3 where "outcomes = False # False # True # r3"
    | (ok) "carried_out 3 outcomes"
proof (cases outcomes)
  case Nil
  then show ?thesis using that(4) by simp
next
  case (Cons b1 t1)
  show ?thesis
  proof (cases b1)
    case True
    with Cons show ?thesis using that(1) by simp
  next
    case b1: False
    show ?thesis
    proof (cases t1)
      case Nil
      with Cons b1 show ?thesis using that(4) by (simp add: carried_out_def)
    next
      case c2: (Cons b2 t2)
      show ?thesis
      proof (cases b2)
        case True
        with Cons b1 c2 show ?thesis using that(2) by simp
      next
        case b2: False
        show ?thesis
        proof (cases t2)
          case Nil
          with Cons b1 c2 b2 show ?thesis using that(4) by (simp add: carried_out_def)
        next
          case c3: (Cons b3 t3)
          show ?thesis
          proof (cases b3)
            case True
            with Cons b1 c2 b2 c3 show ?thesis using that(3) by simp
          next
            case False
            with Cons b1 c2 b2 c3 show ?thesis
              using that(4) by (simp add: carried_out_def eval_nat_numeral)
          qed
        qed
      qed
    qed
  qed
qed

lemmas prisma_defs = ret_def throw_def andThen_def dollar_transaction_def
  user_update_increment_def user_update_decrement_def user_update_saldo_def
  purchase_update_def purchase_create_def transaction_create_def systemLog_create_def
  deposit_update_def withdrawal_update_def withdrawal_create_def
  referralLevel_create_def referralBonus_create_def user_findUnique_def

text \<open>A \<^verbatim>\<open>$transaction\<close> that throws leaves the database as it was.\<close>

lemma dollar_transaction_rollback:
  "fst (dollar_transaction m w) = Inl e \<Longrightarrow> fst (snd (dollar_transaction m w)) = fst w"
  by (auto simp: dollar_transaction_def split: prod.splits sum.splits)

section \<open>Deposit approval answers 500 after it has committed\<close>

lemma approve_deposit_tx_carried:
  assumes "deposits db did = Some d" and "users db (d_user_id d) = Some u"
    and c: "carried_out 4 outcomes"
  shows "approve_deposit_tx now did d (db, outcomes) =
     (Inr (d\<lparr>d_status := ''completed'', d_processed_at := Some now\<rparr>, u_saldo u + d_amount d),
      (db\<lparr>users := (users db)(d_user_id d \<mapsto> u\<lparr>u_saldo := u_saldo u + d_amount d\<rparr>),
          deposits := (deposits db)(did \<mapsto> d\<lparr>d_status := ''completed'',
                                              d_processed_at := Some now\<rparr>),
          transactions := transactions db @
            [\<lparr>t_user_id = d_user_id d, t_type = ''deposit'', t_amount = d_amount d,
              t_balance_after = u_saldo u + d_amount d, t_created_at = now\<rparr>],
          systemLogs := systemLogs db @
            [\<lparr>l_action = ''DEPOSIT_APPROVED'', l_user_id = Some (d_user_id d),
              l_created_at = now\<rparr>]\<rparr>, drop 4 outcomes))"
  using assms(1,2)
  by (simp add: approve_deposit_tx_def prisma_defs Let_def
      store_write_first[OF c] store_write_drop[OF c] eval_nat_numeral)

text \<open>No call of the handler is answered with \<^verbatim>\<open>success: true\<close>.\<close>

lemma approve_deposit_never_success:
  "\<exists>st m. fst (approve_deposit now did w) = Response st False m"
  by (auto simp: approve_deposit_def andThen_def throw_def user_findUnique_def
      split: option.splits prod.splits sum.splits)

text \<open>
  Claim C9. For every approval of a deposit that is not yet completed (a pending one in
  particular), when the four writes of the store transaction are carried out and the
  owner exists, so that the transaction commits: the owner's balance is credited with the
  deposit's amount, the deposit is completed, the Transaction row of type \<^verbatim>\<open>deposit\<close>
  and the SystemLog row are stored, and the caller is answered 500 with
  \<^verbatim>\<open>success: false\<close>, the error being the ReferenceError for \<^verbatim>\<open>result\<close>.
\<close>

theorem approve_deposit_commits_then_answers_500:
  assumes "deposits db did = Some d" and "d_status d \<noteq> ''completed''"
    and "users db (d_user_id d) = Some u" and "carried_out 4 outcomes"
  shows "approve_deposit now did (db, outcomes) =
     (Response 500 False (InternalError (ReferenceError ''result'')),
      (db\<lparr>users := (users db)(d_user_id d \<mapsto> u\<lparr>u_saldo := u_saldo u + d_amount d\<rparr>),
          deposits := (deposits db)(did \<mapsto> d\<lparr>d_status := ''completed'',
                                              d_processed_at := Some now\<rparr>),
          transactions := transactions db @
            [\<lparr>t_user_id = d_user_id d, t_type = ''deposit'', t_amount = d_amount d,
              t_balance_after = u_saldo u + d_amount d, t_created_at = now\<rparr>],
          systemLogs := systemLogs db @
            [\<lparr>l_action = ''DEPOSIT_APPROVED'', l_user_id = Some (d_user_id d),
              l_created_at = now\<rparr>]\<rparr>, drop 4 outcomes))"
  using assms(1,2,3) approve_deposit_tx_carried[OF assms(1,3,4), of now]
  by (simp add: approve_deposit_def andThen_def dollar_transaction_def throw_def
      user_findUnique_def)

theorem approve_deposit_commits_then_answers_500_witness:
  "approve_deposit 1000 7
     (empty_db\<lparr>users := [1 \<mapsto> \<lparr>u_saldo = 500, u_inviter_id = None\<rparr>],
               deposits := [7 \<mapsto> \<lparr>d_user_id = 1, d_amount = 200, d_status = ''pending'',
                                   d_processed_at = None\<rparr>]\<rparr>, [])
   = (Response 500 False (InternalError (ReferenceError ''result'')),
      (empty_db\<lparr>users := [1 \<mapsto> \<lparr>u_saldo = 700, u_inviter_id = None\<rparr>],
                deposits := [7 \<mapsto> \<lparr>d_user_id = 1, d_amount = 200, d_status = ''completed'',
                                   d_processed_at = Some 1000\<rparr>],
                transactions := [\<lparr>t_user_id = 1, t_type = ''deposit'', t_amount = 200,
                                  t_balance_after = 700, t_created_at = 1000\<rparr>],
                systemLogs := [\<lparr>l_action = ''DEPOSIT_APPROVED'', l_user_id = Some 1,
                                l_created_at = 1000\<rparr>]\<rparr>, []))"
  using approve_deposit_commits_then_answers_500
    [of "empty_db\<lparr>users := [1 \<mapsto> \<lparr>u_saldo = 500, u_inviter_id = None\<rparr>],
               deposits := [7 \<mapsto> \<lparr>d_user_id = 1, d_amount = 200, d_status = ''pending'',
                                   d_processed_at = None\<rparr>]\<rparr>" 7
        "\<lparr>d_user_id = 1, d_amount = 200, d_status = ''pending'', d_processed_at = None\<rparr>"
        "\<lparr>u_saldo = 500, u_inviter_id = None\<rparr>" "[]" 1000]
  by simp

section \<open>Withdrawal rejection refunds on every call\<close>

lemma carried_out_split:
  "carried_out (k + n) outcomes \<Longrightarrow> carried_out k outcomes \<and> carried_out n (drop k outcomes)"
  unfolding carried_out_def
  by (metis (no_types, lifting) add.commute in_set_takeD set_take_subset_set_take le_add1 subsetD take_add Un_iff set_append take_drop)

lemma reject_withdrawal_carried:
  assumes "withdrawals db wid = Some x" and "users db (w_user_id x) = Some u"
    and c: "carried_out 4 outcomes"
  shows "reject_withdrawal now wid (db, outcomes) =
     (Response 200 True WithdrawalRejected,
      (db\<lparr>users := (users db)(w_user_id x \<mapsto> u\<lparr>u_saldo := u_saldo u + w_amount x\<rparr>),
          withdrawals := (withdrawals db)(wid \<mapsto> x\<lparr>w_status := ''failed'',
                                                 w_processed_at := Some now\<rparr>),
          transactions := transactions db @
            [\<lparr>t_user_id = w_user_id x, t_type = ''withdrawal_refund'', t_amount = w_amount x,
              t_balance_after = u_saldo u + w_amount x, t_created_at = now\<rparr>],
          systemLogs := systemLogs db @
            [\<lparr>l_action = ''WITHDRAWAL_REJECTED'', l_user_id = Some (w_user_id x),
              l_created_at = now\<rparr>]\<rparr>, drop 4 outcomes))"
  using assms(1,2)
  by (simp add: reject_withdrawal_def reject_withdrawal_tx_def prisma_defs Let_def
      store_write_first[OF c] store_write_drop[OF c] eval_nat_numeral)

text \<open>
  Claim C8. Rejecting a withdrawal looks at no status. For every existing withdrawal whose
  owner exists, whatever its status, each call whose writes are carried out answers
  success, adds the withdrawal's amount to the owner's balance, sets the status to
  \<^verbatim>\<open>failed\<close> and appends a \<^verbatim>\<open>withdrawal_refund\<close> Transaction with the new balance; two calls
  in a row credit the amount twice. Deposit approval, by contrast, answers 400 for a
  deposit that is already completed and changes nothing.
\<close>

theorem reject_withdrawal_refunds_on_every_call:
  assumes x: "withdrawals db wid = Some x" and u: "users db (w_user_id x) = Some u"
    and c: "carried_out 8 outcomes"
  shows "let refund = (\<lambda>t bal. \<lparr>t_user_id = w_user_id x, t_type = ''withdrawal_refund'',
                                 t_amount = w_amount x, t_balance_after = bal, t_created_at = t\<rparr>);
             (r1, w1) = reject_withdrawal now wid (db, outcomes);
             (r2, w2) = reject_withdrawal now' wid w1
         in r1 = Response 200 True WithdrawalRejected
          \<and> users (fst w1) (w_user_id x) = Some (u\<lparr>u_saldo := u_saldo u + w_amount x\<rparr>)
          \<and> map_option w_status (withdrawals (fst w1) wid) = Some ''failed''
          \<and> transactions (fst w1) = transactions db @ [refund now (u_saldo u + w_amount x)]
          \<and> r2 = Response 200 True WithdrawalRejected
          \<and> users (fst w2) (w_user_id x) = Some (u\<lparr>u_saldo := u_saldo u + 2 * w_amount x\<rparr>)
          \<and> transactions (fst w2) = transactions db @
                [refund now (u_saldo u + w_amount x), refund now' (u_saldo u + 2 * w_amount x)]
          \<and> (\<forall>did d. deposits db did = Some d \<and> d_status d = ''completed'' \<longrightarrow>
                 approve_deposit now did (db, outcomes)
                 = (Response 400 False DepositAlreadyProcessed, (db, outcomes)))"
proof -
  have c8: "carried_out (4 + 4) outcomes" using c by simp
  have c1: "carried_out 4 outcomes" and c2: "carried_out 4 (drop 4 outcomes)"
    using carried_out_split[OF c8] by simp_all
  define db1 where "db1 = db\<lparr>users := (users db)(w_user_id x \<mapsto> u\<lparr>u_saldo := u_saldo u + w_amount x\<rparr>),
          withdrawals := (withdrawals db)(wid \<mapsto> x\<lparr>w_status := ''failed'',
                                                 w_processed_at := Some now\<rparr>),
          transactions := transactions db @
            [\<lparr>t_user_id = w_user_id x, t_type = ''withdrawal_refund'', t_amount = w_amount x,
              t_balance_after = u_saldo u + w_amount x, t_created_at = now\<rparr>],
          systemLogs := systemLogs db @
            [\<lparr>l_action = ''WITHDRAWAL_REJECTED'', l_user_id = Some (w_user_id x),
              l_created_at = now\<rparr>]\<rparr>"
  have first: "reject_withdrawal now wid (db, outcomes)
               = (Response 200 True WithdrawalRejected, (db1, drop 4 outcomes))"
    unfolding db1_def by (rule reject_withdrawal_carried[OF x u c1])
  have x1: "withdrawals db1 wid = Some (x\<lparr>w_status := ''failed'', w_processed_at := Some now\<rparr>)"
    and u1: "users db1 (w_user_id x) = Some (u\<lparr>u_saldo := u_saldo u + w_amount x\<rparr>)"
    and t1: "transactions db1 = transactions db @
            [\<lparr>t_user_id = w_user_id x, t_type = ''withdrawal_refund'', t_amount = w_amount x,
              t_balance_after = u_saldo u + w_amount x, t_created_at = now\<rparr>]"
    by (simp_all add: db1_def)
  have second: "reject_withdrawal now' wid (db1, drop 4 outcomes) =
     (Response 200 True WithdrawalRejected,
      (db1\<lparr>users := (users db1)(w_user_id x \<mapsto> u\<lparr>u_saldo := u_saldo u + w_amount x + w_amount x\<rparr>),
          withdrawals := (withdrawals db1)(wid \<mapsto> x\<lparr>w_status := ''failed'',
                                                 w_processed_at := Some now'\<rparr>),
          transactions := transactions db1 @
            [\<lparr>t_user_id = w_user_id x, t_type = ''withdrawal_refund'', t_amount = w_amount x,
              t_balance_after = u_saldo u + w_amount x + w_amount x, t_created_at = now'\<rparr>],
          systemLogs := systemLogs db1 @
            [\<lparr>l_action = ''WITHDRAWAL_REJECTED'', l_user_id = Some (w_user_id x),
              l_created_at = now'\<rparr>]\<rparr>, drop 4 (drop 4 outcomes)))"
    using reject_withdrawal_carried[OF x1 _ c2, of _ now'] u1 by simp
  have dep: "\<forall>did d. deposits db did = Some d \<and> d_status d = ''completed'' \<longrightarrow>
                 approve_deposit now did (db, outcomes)
                 = (Response 400 False DepositAlreadyProcessed, (db, outcomes))"
    by (simp add: approve_deposit_def)
  show ?thesis
    unfolding Let_def first second split_conv fst_conv
    using dep by (simp add: x1 u1 t1)
qed

theorem reject_withdrawal_refunds_on_every_call_witness:
  "(let db = empty_db\<lparr>users := [1 \<mapsto> \<lparr>u_saldo = 500, u_inviter_id = None\<rparr>],
                        withdrawals := [3 \<mapsto> \<lparr>w_user_id = 1, w_amount = 100,
                                           w_status = ''failed'', w_processed_at = Some 5\<rparr>]\<rparr>;
        w1 = snd (reject_withdrawal 10 3 (db, []));
        w2 = snd (reject_withdrawal 20 3 w1)
    in map_option u_saldo (users (fst w1) 1) = Some 600
     \<and> map_option u_saldo (users (fst w2) 1) = Some 700
     \<and> map t_amount (transactions (fst w2)) = [100, 100])"
  using reject_withdrawal_refunds_on_every_call
    [of "empty_db\<lparr>users := [1 \<mapsto> \<lparr>u_saldo = 500, u_inviter_id = None\<rparr>],
                  withdrawals := [3 \<mapsto> \<lparr>w_user_id = 1, w_amount = 100,
                                     w_status = ''failed'', w_processed_at = Some 5\<rparr>]\<rparr>" 3
        "\<lparr>w_user_id = 1, w_amount = 100, w_status = ''failed'', w_processed_at = Some 5\<rparr>"
        "\<lparr>u_saldo = 500, u_inviter_id = None\<rparr>" "[]" 10 20]
  by (simp add: Let_def split_beta)

section \<open>Debits beyond the balance are rejected\<close>

text \<open>
  Claim C7. For every account and every amount above its balance, the purchase route, the
  withdrawal route, the administrator's deduction and a \<^verbatim>\<open>deduct\<close> item of the bulk
  route answer with an error that says why (status 400 for the three routes, an entry in
  \<^verbatim>\<open>errors\<close> for the bulk item) and leave the whole store as it was: the balance is
  unchanged and no Purchase, Withdrawal or Transaction row is created. The bulk route
  called with that one item changes no account and appends no Transaction row; what it
  writes is its summary SystemLog row.
\<close>

theorem overdraw_is_rejected_without_mutation:
  assumes "users db uid = Some u" and "u_saldo u < a"
  shows "(q_amount req = Some a \<longrightarrow>
            api_purchase z now uid req (db, outcomes)
            = (Response 400 False
                 (if falsy_str (q_product_id req) \<or> falsy_str (q_product_name req) \<or> a = 0
                  then IncompleteData else InsufficientBalance (u_saldo u) a), (db, outcomes)))
       \<and> (wr_amount wreq = Some a \<longrightarrow>
            api_withdraw now uid wreq (db, outcomes)
            = (Response 400 False
                 (if a \<le> 0 then InvalidAmount
                  else if falsy_str (wr_account_name wreq) \<or> falsy_str (wr_iban wreq)
                          \<or> falsy_str (wr_bank_name wreq) then IncompleteBankInfo
                  else InsufficientBalance (u_saldo u) a), (db, outcomes)))
       \<and> deduct_balance now uid (Some a) (db, outcomes)
           = (Response 400 False
                (if a \<le> 0 then InvalidAmount else InsufficientBalance (u_saldo u) a),
              (db, outcomes))
       \<and> bulk_step now \<lparr>op_user_id = Some uid, op_action = Some ''deduct'', op_amount = Some a\<rparr>
             acc (db, outcomes)
           = (push_error acc (Some uid)
                (if a \<le> 0 then InvalidData else InsufficientFunds (u_saldo u)), (db, outcomes))
       \<and> users (fst (snd (bulk_balance now
             [\<lparr>op_user_id = Some uid, op_action = Some ''deduct'', op_amount = Some a\<rparr>]
             (db, outcomes)))) = users db
       \<and> transactions (fst (snd (bulk_balance now
             [\<lparr>op_user_id = Some uid, op_action = Some ''deduct'', op_amount = Some a\<rparr>]
             (db, outcomes)))) = transactions db"
proof -
  have step: "bulk_step now
                \<lparr>op_user_id = Some uid, op_action = Some ''deduct'', op_amount = Some a\<rparr>
                acc' (db, outcomes)
              = (push_error acc' (Some uid)
                   (if a \<le> 0 then InvalidData else InsufficientFunds (u_saldo u)),
                 (db, outcomes))" for acc'
    using assms
    by (simp add: bulk_step_def bulk_try_def bulk_apply_def ret_def andThen_def
        user_findUnique_def)
  have log: "users (fst (snd (systemLog_create row (db, outcomes)))) = users db
           \<and> transactions (fst (snd (systemLog_create row (db, outcomes)))) = transactions db"
    for row
    by (simp add: systemLog_create_def store_write_def split: list.splits bool.splits)
  have bulk: "users (fst (snd (bulk_balance now
             [\<lparr>op_user_id = Some uid, op_action = Some ''deduct'', op_amount = Some a\<rparr>]
             (db, outcomes)))) = users db
       \<and> transactions (fst (snd (bulk_balance now
             [\<lparr>op_user_id = Some uid, op_action = Some ''deduct'', op_amount = Some a\<rparr>]
             (db, outcomes)))) = transactions db"
    using log[of "\<lparr>l_action = ''BULK_BALANCE_ADJUSTMENT'', l_user_id = None,
                       l_created_at = now\<rparr>"]
    by (auto simp add: bulk_balance_def step split: prod.splits sum.splits)
  have routes: "(q_amount req = Some a \<longrightarrow>
            api_purchase z now uid req (db, outcomes)
            = (Response 400 False
                 (if falsy_str (q_product_id req) \<or> falsy_str (q_product_name req) \<or> a = 0
                  then IncompleteData else InsufficientBalance (u_saldo u) a), (db, outcomes)))
       \<and> (wr_amount wreq = Some a \<longrightarrow>
            api_withdraw now uid wreq (db, outcomes)
            = (Response 400 False
                 (if a \<le> 0 then InvalidAmount
                  else if falsy_str (wr_account_name wreq) \<or> falsy_str (wr_iban wreq)
                          \<or> falsy_str (wr_bank_name wreq) then IncompleteBankInfo
                  else InsufficientBalance (u_saldo u) a), (db, outcomes)))
       \<and> deduct_balance now uid (Some a) (db, outcomes)
           = (Response 400 False
                (if a \<le> 0 then InvalidAmount else InsufficientBalance (u_saldo u) a),
              (db, outcomes))"
    using assms
    by (auto simp: api_purchase_def api_withdraw_def deduct_balance_def falsy_str_def
        split: option.splits)
  show ?thesis using routes step[of acc] bulk by simp
qed


theorem overdraw_is_rejected_without_mutation_witness:
  "(let db = empty_db\<lparr>users := [1 \<mapsto> \<lparr>u_saldo = 150, u_inviter_id = None\<rparr>]\<rparr>
    in (150::int) < 200
     \<and> deduct_balance 0 1 (Some 200) (db, [])
         = (Response 400 False (InsufficientBalance 150 200), (db, []))
     \<and> api_purchase (fixed_zone 0) 0 1
           \<lparr>q_product_id = Some ''7'', q_product_name = Some ''gold'',
            q_amount = Some 200, q_quantity = None, q_daily_return = None,
            q_cycle_days = None\<rparr> (db, [])
         = (Response 400 False (InsufficientBalance 150 200), (db, [])))"
  using overdraw_is_rejected_without_mutation
    [where db = "empty_db\<lparr>users := [1 \<mapsto> \<lparr>u_saldo = 150, u_inviter_id = None\<rparr>]\<rparr>"
       and uid = 1 and u = "\<lparr>u_saldo = 150, u_inviter_id = None\<rparr>" and a = 200
       and req = "\<lparr>q_product_id = Some ''7'', q_product_name = Some ''gold'',
          q_amount = Some 200, q_quantity = None, q_daily_return = None,
          q_cycle_days = None\<rparr>"
       and z = "fixed_zone 0" and now = 0 and outcomes = "[]"]
  by (simp add: Let_def falsy_str_def)

section \<open>The payout step\<close>

lemmas clock_defs = setHours_plus_def setDate_plus_def LocalTime_def UTC_def
  day_ms_def hour_ms_def

lemmas payout_defs = process_daily_payouts_def payout_step_def payout_try_def
  payout_credit_def or_default_def is_due_def clock_defs

lemma payout_credit_carried:
  assumes "p \<in> set (purchases db)" and "users db (p_user_id p) = Some u"
    and c: "carried_out 4 outcomes"
  shows "payout_credit now p nextPayout dailyReturn (db, outcomes)
         = (Inr (),
            (db\<lparr>users := (users db)(p_user_id p \<mapsto> u\<lparr>u_saldo := u_saldo u + dailyReturn\<rparr>),
                purchases := map (\<lambda>q. if p_id q = p_id p
                                       then q\<lparr>p_next_payout := nextPayout,
                                              p_total_earned := p_total_earned q + dailyReturn,
                                              p_payout_count := p_payout_count q + 1,
                                              p_last_payout := Some now\<rparr>
                                       else q) (purchases db),
                transactions := transactions db @
                  [\<lparr>t_user_id = p_user_id p, t_type = ''daily_payout_auto'',
                    t_amount = dailyReturn, t_balance_after = u_saldo u + dailyReturn,
                    t_created_at = now\<rparr>],
                systemLogs := systemLogs db @
                  [\<lparr>l_action = ''AUTO_DAILY_PAYOUT'', l_user_id = Some (p_user_id p),
                    l_created_at = now\<rparr>]\<rparr>, drop 4 outcomes))"
  using assms(1,2)
  by (auto simp add: payout_credit_def prisma_defs Let_def
      store_write_first[OF c] store_write_drop[OF c] eval_nat_numeral)

lemma payout_credit_faulty:
  assumes "p \<in> set (purchases db)" and "users db (p_user_id p) = Some u"
    and c: "\<not> carried_out 4 outcomes"
  shows "\<exists>rest. payout_credit now p nextPayout dailyReturn (db, outcomes)
         = (Inl StoreError, (db, rest))"
  using assms
  by (auto simp add: payout_credit_def prisma_defs Let_def carried_out_def
      store_write_def eval_nat_numeral split: list.splits bool.splits)

text \<open>
  One step of \<^verbatim>\<open>/api/process-daily-payouts\<close>. For every stored purchase whose owner exists
  and whose cycle is not complete, the step is all or nothing. When its four writes are
  carried out, the owner's balance grows by the daily return (the stored \<^verbatim>\<open>daily_return\<close>,
  or 13 when that is missing or zero), \<^verbatim>\<open>next_payout\<close> becomes the purchase's prior
  \<^verbatim>\<open>next_payout\<close> moved by 24 hours of the wall clock, \<^verbatim>\<open>total_earned\<close> grows by the daily
  return, \<^verbatim>\<open>payout_count\<close> by 1, \<^verbatim>\<open>last_payout\<close> is now, and one Transaction of type
  \<^verbatim>\<open>daily_payout_auto\<close>, whose \<^verbatim>\<open>balance_after\<close> is the new balance, and one SystemLog row
  are appended. When one of the four writes throws, the database is as it was and the
  purchase is listed under \<^verbatim>\<open>errors\<close>.
\<close>

lemma payout_step_credits_atomically:
  assumes stored: "p \<in> set (purchases db)" and owner: "users db (p_user_id p) = Some u"
    and incomplete: "(now - p_purchase_date p) div day_ms < or_default (p_cycle_days p) 30"
  shows "let dailyReturn = or_default (p_daily_return p) 13;
             (acc', db', rest) = payout_step z now p acc (db, outcomes)
         in (carried_out 4 outcomes \<longrightarrow>
               users db' = (users db)(p_user_id p \<mapsto> u\<lparr>u_saldo := u_saldo u + dailyReturn\<rparr>)
             \<and> p\<lparr>p_next_payout := setHours_plus z 24 (p_next_payout p),
                  p_total_earned := p_total_earned p + dailyReturn,
                  p_payout_count := p_payout_count p + 1,
                  p_last_payout := Some now\<rparr> \<in> set (purchases db')
             \<and> (\<forall>q \<in> set (purchases db'). p_id q \<noteq> p_id p \<longrightarrow> q \<in> set (purchases db))
             \<and> transactions db' = transactions db @
                  [\<lparr>t_user_id = p_user_id p, t_type = ''daily_payout_auto'',
                    t_amount = dailyReturn, t_balance_after = u_saldo u + dailyReturn,
                    t_created_at = now\<rparr>]
             \<and> systemLogs db' = systemLogs db @
                  [\<lparr>l_action = ''AUTO_DAILY_PAYOUT'', l_user_id = Some (p_user_id p),
                    l_created_at = now\<rparr>]
             \<and> processedCount acc' = Suc (processedCount acc)
             \<and> totalAmount acc' = totalAmount acc + dailyReturn)
          \<and> (\<not> carried_out 4 outcomes \<longrightarrow>
               db' = db \<and> processedCount acc' = processedCount acc
             \<and> errors acc' = errors acc @ [(p_id p, p_user_id p, StoreError)])"
proof (cases "carried_out 4 outcomes")
  case True
  show ?thesis
    using True incomplete stored owner
    by (auto simp add: payout_step_def payout_try_def Let_def andThen_def ret_def
        user_findUnique_def payout_credit_carried[OF stored owner True] image_iff)
next
  case False
  from payout_credit_faulty[OF stored owner False]
  obtain rest where "payout_credit now p (setHours_plus z 24 (p_next_payout p))
      (or_default (p_daily_return p) 13) (db, outcomes) = (Inl StoreError, (db, rest))"
    by blast
  then show ?thesis
    using False incomplete owner
    by (simp add: payout_step_def payout_try_def Let_def andThen_def ret_def
        user_findUnique_def)
qed

text \<open>
  Claim C2 says that every due purchase the Payout Engine credits gets its \<^verbatim>\<open>next_payout\<close>
  set to the prior \<^verbatim>\<open>next_payout\<close> plus 24 hours, not to now plus 24 hours, with a
  Transaction of type \<^verbatim>\<open>daily_payout_auto\<close>. Evaluated on the store that the purchase
  route leaves behind (a position bought at time 0, first payout due at 24 hours), with
  the engine called 5 hours late, in the zone of offset 0: \<^verbatim>\<open>/api/process-payouts\<close> sets
  \<^verbatim>\<open>next_payout\<close> to now plus 24 hours, which is 53 hours, writes a Transaction of type
  \<^verbatim>\<open>payout\<close> and a SystemLog row \<^verbatim>\<open>DAILY_PAYOUT\<close>; \<^verbatim>\<open>/api/process-daily-payouts\<close> on the same
  store sets \<^verbatim>\<open>next_payout\<close> to 48 hours and writes the type \<^verbatim>\<open>daily_payout_auto\<close>.
\<close>

theorem process_payouts_moves_next_payout_from_now:
  "snd (api_purchase (fixed_zone 0) 0 1 gold_request
          (empty_db\<lparr>users := [1 \<mapsto> user500]\<rparr>, [])) = (bought_db, [])
   \<and> map p_next_payout (purchases bought_db) = [day_ms]
   \<and> map p_next_payout (purchases (fst (snd (process_payouts (fixed_zone 0)
          (day_ms + 5 * hour_ms) (bought_db, []))))) = [2 * day_ms + 5 * hour_ms]
   \<and> map t_type (transactions (fst (snd (process_payouts (fixed_zone 0)
          (day_ms + 5 * hour_ms) (bought_db, []))))) = [''purchase'', ''payout'']
   \<and> map l_action (systemLogs (fst (snd (process_payouts (fixed_zone 0)
          (day_ms + 5 * hour_ms) (bought_db, []))))) = [''PURCHASE_COMPLETED'', ''DAILY_PAYOUT'']
   \<and> map p_next_payout (purchases (fst (snd (process_daily_payouts (fixed_zone 0)
          (day_ms + 5 * hour_ms) (bought_db, []))))) = [2 * day_ms]
   \<and> map t_type (transactions (fst (snd (process_daily_payouts (fixed_zone 0)
          (day_ms + 5 * hour_ms) (bought_db, []))))) = [''purchase'', ''daily_payout_auto'']"
  by (simp add: api_purchase_def purchase_after_def purchase_tx_def
      rethrow_as_def never_throws_def distributeReferralBonuses_def purchaserReferrers_def
      process_payouts_def process_payouts_step_def process_payouts_try_def
      process_payouts_credit_def payout_defs prisma_defs store_write_simps Let_def)

section \<open>A run of the Payout Engine, row by row\<close>

text \<open>
  Purchase ids are a primary key. With no store failure, a run of
  \<^verbatim>\<open>/api/process-daily-payouts\<close> replaces every due row by the row its step writes and
  keeps every other row: a due row without an owner is kept, a due row whose cycle has
  elapsed is completed, and any other due row is credited.
\<close>

lemma same_key_same_row:
  assumes "distinct (map p_id xs)" and "p \<in> set xs" and "q \<in> set xs" and "p_id q = p_id p"
  shows "q = p"
  using assms by (meson distinct_map inj_onD)

lemma map_update_by_key:
  fixes g :: "purchase \<Rightarrow> purchase"
  assumes keys: "distinct (map p_id xs)" and stored: "p \<in> set xs"
  shows "map (\<lambda>q. if p_id q = p_id p then g q else q) xs
       = map (\<lambda>q. if q = p then g p else q) xs"
proof (rule map_cong[OF refl])
  fix q assume "q \<in> set xs"
  then show "(if p_id q = p_id p then g q else q) = (if q = p then g p else q)"
    using same_key_same_row[OF keys stored] by auto
qed

lemma payout_step_row:
  fixes f :: "purchase \<Rightarrow> purchase"
  assumes stored: "p \<in> set (purchases db)"
    and keys: "distinct (map p_id (purchases db))"
    and D: "D = dom (users db)"
    and f: "f = (\<lambda>q. if p_user_id q \<notin> D then q
                     else if or_default (p_cycle_days q) 30
                               - (now - p_purchase_date q) div day_ms \<le> 0
                          then q\<lparr>p_status := ''completed'', p_completed_at := Some now\<rparr>
                          else q\<lparr>p_next_payout := setHours_plus z 24 (p_next_payout q),
                                 p_total_earned := p_total_earned q
                                    + or_default (p_daily_return q) 13,
                                 p_payout_count := p_payout_count q + 1,
                                 p_last_payout := Some now\<rparr>)"
  shows "\<exists>acc' db'. payout_step z now p acc (db, []) = (acc', (db', []))
           \<and> dom (users db') = D
           \<and> purchases db' = map (\<lambda>q. if q = p then f p else q) (purchases db)"
proof (cases "users db (p_user_id p)")
  case None
  then have "f p = p" unfolding f D by (simp add: domIff)
  then have "map (\<lambda>q. if q = p then f p else q) (purchases db) = purchases db"
    by (simp add: map_idI)
  then show ?thesis
    using None
    by (simp add: payout_step_def payout_try_def prisma_defs user_findUnique_def D)
next
  case (Some u)
  then have inD: "p_user_id p \<in> D" unfolding D by blast
  have key: "\<exists>q \<in> set (purchases db). p_id q = p_id p" using stored by blast
  show ?thesis
  proof (cases "or_default (p_cycle_days p) 30 - (now - p_purchase_date p) div day_ms \<le> 0")
    case True
    have fp: "f p = p\<lparr>p_status := ''completed'', p_completed_at := Some now\<rparr>"
      unfolding f using inD True by simp
    show ?thesis
      unfolding fp
      using True key Some
      by (simp add: payout_step_def payout_try_def Let_def prisma_defs store_write_nil
          user_findUnique_def purchase_update_def D
          map_update_by_key[OF keys stored,
            of "\<lambda>q. q\<lparr>p_status := ''completed'', p_completed_at := Some now\<rparr>"])
  next
    case False
    have fp: "f p = p\<lparr>p_next_payout := setHours_plus z 24 (p_next_payout p),
                       p_total_earned := p_total_earned p + or_default (p_daily_return p) 13,
                       p_payout_count := p_payout_count p + 1,
                       p_last_payout := Some now\<rparr>"
      unfolding f using inD False by simp
    have c: "carried_out 4 []" by simp
    show ?thesis
      unfolding fp
      using False Some
      by (simp add: payout_step_def payout_try_def Let_def andThen_def ret_def
          user_findUnique_def payout_credit_carried[OF stored Some c] D
          insert_absorb domI
          map_update_by_key[OF keys stored,
            of "\<lambda>q. q\<lparr>p_next_payout := setHours_plus z 24 (p_next_payout p),
                       p_total_earned := p_total_earned q + or_default (p_daily_return p) 13,
                       p_payout_count := p_payout_count q + 1,
                       p_last_payout := Some now\<rparr>"])
  qed
qed


lemma payout_loop_rows:
  fixes f :: "purchase \<Rightarrow> purchase"
  assumes f: "f = (\<lambda>q. if p_user_id q \<notin> D then q
                     else if or_default (p_cycle_days q) 30
                               - (now - p_purchase_date q) div day_ms \<le> 0
                          then q\<lparr>p_status := ''completed'', p_completed_at := Some now\<rparr>
                          else q\<lparr>p_next_payout := setHours_plus z 24 (p_next_payout q),
                                 p_total_earned := p_total_earned q
                                    + or_default (p_daily_return q) 13,
                                 p_payout_count := p_payout_count q + 1,
                                 p_last_payout := Some now\<rparr>)"
  shows "set ps \<subseteq> set (purchases db) \<Longrightarrow> distinct ps
         \<Longrightarrow> distinct (map p_id (purchases db)) \<Longrightarrow> D = dom (users db)
         \<Longrightarrow> \<exists>acc' db'. payout_loop z now ps acc (db, []) = (acc', (db', []))
               \<and> dom (users db') = D
               \<and> purchases db' = map (\<lambda>q. if q \<in> set ps then f q else q) (purchases db)"
proof (induction ps arbitrary: db acc)
  case Nil
  then show ?case by simp
next
  case (Cons p ps)
  have stored: "p \<in> set (purchases db)" using Cons.prems(1) by simp
  have fresh: "p \<notin> set ps" and dps: "distinct ps" using Cons.prems(2) by simp_all
  note keys = Cons.prems(3)
  note D = Cons.prems(4)
  have fid: "p_id (f q) = p_id q" for q by (simp add: f)
  from payout_step_row[OF stored keys D f, of acc]
  obtain acc1 db1 where step: "payout_step z now p acc (db, []) = (acc1, (db1, []))"
    and d1: "dom (users db1) = D"
    and p1: "purchases db1 = map (\<lambda>q. if q = p then f p else q) (purchases db)"
    by iprover
  have ids1: "map p_id (purchases db1) = map p_id (purchases db)"
    unfolding p1 by (induction "purchases db") (simp_all add: fid)
  have keys1: "distinct (map p_id (purchases db1))" using keys ids1 by simp
  have sub1: "set ps \<subseteq> set (purchases db1)"
  proof
    fix q assume q: "q \<in> set ps"
    then have "q \<in> set (purchases db)" and "q \<noteq> p" using Cons.prems(1) fresh by auto
    then show "q \<in> set (purchases db1)" unfolding p1 by (simp add: image_iff)
  qed
  from Cons.IH[OF sub1 dps keys1 d1[symmetric], of acc1]
  obtain acc2 db2 where loop: "payout_loop z now ps acc1 (db1, []) = (acc2, (db2, []))"
    and d2: "dom (users db2) = D"
    and p2: "purchases db2 = map (\<lambda>q. if q \<in> set ps then f q else q) (purchases db1)"
    by iprover
  have untouched: "f p \<notin> set ps"
  proof
    assume a: "f p \<in> set ps"
    then have "f p \<in> set (purchases db)" using Cons.prems(1) by auto
    from same_key_same_row[OF keys stored this fid] have "f p = p" .
    then show False using a fresh by simp
  qed
  have "purchases db2 = map (\<lambda>q. if q \<in> set (p # ps) then f q else q) (purchases db)"
    unfolding p2 p1 map_map
  proof (rule map_cong[OF refl])
    fix q assume "q \<in> set (purchases db)"
    show "((\<lambda>q. if q \<in> set ps then f q else q) \<circ> (\<lambda>q. if q = p then f p else q)) q
          = (if q \<in> set (p # ps) then f q else q)"
      using untouched by simp
  qed
  moreover have "payout_loop z now (p # ps) acc (db, []) = (acc2, (db2, []))"
    using step loop by simp
  ultimately show ?case using d2 by (intro exI conjI)
qed

lemma process_daily_payouts_rows:
  fixes f :: "purchase \<Rightarrow> purchase"
  assumes keys: "distinct (map p_id (purchases db))"
    and f: "f = (\<lambda>q. if p_user_id q \<notin> dom (users db) then q
                     else if or_default (p_cycle_days q) 30
                               - (now - p_purchase_date q) div day_ms \<le> 0
                          then q\<lparr>p_status := ''completed'', p_completed_at := Some now\<rparr>
                          else q\<lparr>p_next_payout := setHours_plus z 24 (p_next_payout q),
                                 p_total_earned := p_total_earned q
                                    + or_default (p_daily_return q) 13,
                                 p_payout_count := p_payout_count q + 1,
                                 p_last_payout := Some now\<rparr>)"
  shows "\<exists>r db'. process_daily_payouts z now (db, []) = (r, (db', []))
           \<and> dom (users db') = dom (users db)
           \<and> purchases db' = map (\<lambda>q. if is_due now q then f q else q) (purchases db)"
proof (cases "filter (is_due now) (purchases db) = []")
  case True
  then have "\<forall>q \<in> set (purchases db). \<not> is_due now q" by (simp add: filter_empty_conv)
  then have "map (\<lambda>q. if is_due now q then f q else q) (purchases db) = purchases db"
    by (simp add: map_idI)
  then show ?thesis using True by (simp add: process_daily_payouts_def)
next
  case False
  let ?due = "filter (is_due now) (purchases db)"
  let ?acc0 = "\<lparr>processedCount = 0, totalAmount = 0, results = [], errors = []\<rparr>"
  have sub: "set ?due \<subseteq> set (purchases db)" by auto
  have d: "distinct ?due" using keys by (simp add: distinct_map)
  from payout_loop_rows[OF f sub d keys refl, of ?acc0]
  obtain acc' db' where loop: "payout_loop z now ?due ?acc0 (db, []) = (acc', (db', []))"
    and dm: "dom (users db') = dom (users db)"
    and ps: "purchases db' = map (\<lambda>q. if q \<in> set ?due then f q else q) (purchases db)"
    by iprover
  have ps': "purchases db' = map (\<lambda>q. if is_due now q then f q else q) (purchases db)"
    unfolding ps by (rule map_cong[OF refl]) simp
  have "process_daily_payouts z now (db, [])
        = (Response 200 True (PayoutsDone (processedCount acc') (totalAmount acc')),
           (db'\<lparr>systemLogs := systemLogs db' @
                  [\<lparr>l_action = ''AUTO_PAYOUTS_COMPLETED'', l_user_id = None,
                    l_created_at = now\<rparr>]\<rparr>, []))"
    using False loop
    by (simp add: process_daily_payouts_def Let_def systemLog_create_def store_write_nil)
  then show ?thesis using dm ps' by simp
qed


lemma not_due_completed:
  "\<not> is_due now (q\<lparr>p_status := ''completed'', p_completed_at := t\<rparr>)"
  by (simp add: is_due_def)

lemma due_credited:
  "is_due now (q\<lparr>p_next_payout := n, p_total_earned := a, p_payout_count := b,
                  p_last_payout := c\<rparr>)
   \<longleftrightarrow> p_status q = ''active'' \<and> n \<le> now \<and> now < p_expiry_date q"
  by (simp add: is_due_def)

section \<open>Cycle completion\<close>

text \<open>
  Claim C4 says that a purchase stops earning once \<^verbatim>\<open>payout_count\<close> reaches
  \<^verbatim>\<open>cycle_days\<close>. The engine never reads \<^verbatim>\<open>payout_count\<close>: a due purchase with
  \<^verbatim>\<open>payout_count = cycle_days = 30\<close>, bought one day ago, is credited and stays active.
\<close>

theorem full_payout_count_is_still_credited:
  "p_payout_count (holding (Some 13) day_ms 30) = 30
   \<and> p_cycle_days (holding (Some 13) day_ms 30) = Some 30
   \<and> snd (process_daily_payouts (fixed_zone 0) day_ms
         (empty_db\<lparr>users := [1 \<mapsto> user500], purchases := [holding (Some 13) day_ms 30]\<rparr>, []))
     = (empty_db\<lparr>users := [1 \<mapsto> \<lparr>u_saldo = 513, u_inviter_id = None\<rparr>],
           purchases := [(holding (Some 13) (2 * day_ms) 31)
                           \<lparr>p_total_earned := 13, p_last_payout := Some day_ms\<rparr>],
           transactions := [\<lparr>t_user_id = 1, t_type = ''daily_payout_auto'', t_amount = 13,
                             t_balance_after = 513, t_created_at = day_ms\<rparr>],
           systemLogs := [\<lparr>l_action = ''AUTO_DAILY_PAYOUT'', l_user_id = Some 1,
                           l_created_at = day_ms\<rparr>,
                          \<lparr>l_action = ''AUTO_PAYOUTS_COMPLETED'', l_user_id = None,
                           l_created_at = day_ms\<rparr>]\<rparr>, [])"
  by (simp add: payout_defs prisma_defs store_write_simps Let_def)

text \<open>
  The step on a stored purchase with an owner whose elapsed whole days since
  \<^verbatim>\<open>purchase_date\<close> have reached \<^verbatim>\<open>cycle_days\<close> (30 when that is missing or zero): whatever
  the store does, no balance changes, no Transaction is appended and nothing is counted as
  processed; when the one write is carried out, the rows with the purchase's id are
  marked \<^verbatim>\<open>completed\<close>.
\<close>

lemma payout_step_on_elapsed_cycle:
  assumes stored: "p \<in> set (purchases db)" and owner: "users db (p_user_id p) = Some u"
    and elapsed: "or_default (p_cycle_days p) 30 \<le> (now - p_purchase_date p) div day_ms"
  shows "let (acc', db', rest) = payout_step z now p acc (db, outcomes)
         in users db' = users db \<and> transactions db' = transactions db
          \<and> processedCount acc' = processedCount acc \<and> totalAmount acc' = totalAmount acc
          \<and> (carried_out 1 outcomes \<longrightarrow>
                 purchases db' =
                   map (\<lambda>q. if p_id q = p_id p
                            then q\<lparr>p_status := ''completed'', p_completed_at := Some now\<rparr>
                            else q) (purchases db))"
proof (cases "carried_out 1 outcomes")
  case True
  have w: "purchase_update (p_id p) f (db, outcomes)
        = (Inr (), (db\<lparr>purchases := map (\<lambda>q. if p_id q = p_id p then f q else q)
                                        (purchases db)\<rparr>, drop (Suc 0) outcomes))" for f
    using stored by (auto simp add: purchase_update_def store_write_first[OF True])
  show ?thesis
    using True elapsed stored owner
    by (simp add: payout_step_def payout_try_def Let_def andThen_def ret_def w
        user_findUnique_def)
next
  case False
  then obtain rest where o: "outcomes = True # rest"
    by (cases outcomes) (auto simp: carried_out_def)
  show ?thesis
    using False elapsed owner
    by (simp add: payout_step_def payout_try_def Let_def andThen_def ret_def
        user_findUnique_def purchase_update_def o store_write_True)
qed

lemma elapsed_days_in_ms:
  assumes "c \<le> (now - d) div day_ms"
  shows "d + c * day_ms \<le> now"
proof -
  have "0 < day_ms" by (simp add: day_ms_def)
  then have "0 \<le> (now - d) mod day_ms" by simp
  moreover have "(now - d) div day_ms * day_ms + (now - d) mod day_ms = now - d"
    by (rule div_mult_mod_eq)
  moreover have "c * day_ms \<le> ((now - d) div day_ms) * day_ms"
    using assms \<open>0 < day_ms\<close> by (simp add: mult_right_mono)
  ultimately show ?thesis by linarith
qed

text \<open>
  Claim C4, as the code has it. Take any stored purchase with an owner whose elapsed whole
  days since \<^verbatim>\<open>purchase_date\<close> have reached \<^verbatim>\<open>cycle_days\<close> (30 when that is missing or zero),
  in a store with unique purchase ids. A run of the engine with no store failure leaves
  exactly one row with the purchase's id: the purchase marked \<^verbatim>\<open>completed\<close> if the scan
  selected it as due, and the purchase as it was otherwise. In both cases \<^verbatim>\<open>total_earned\<close>,
  \<^verbatim>\<open>payout_count\<close> and \<^verbatim>\<open>next_payout\<close> are as before, and a completed purchase is due at no
  later time. A purchase whose \<^verbatim>\<open>expiry_date\<close> is at most \<^verbatim>\<open>purchase_date\<close> plus \<^verbatim>\<open>cycle_days\<close>
  days, which is what the purchase route writes in a zone of fixed offset, is not
  selected: it earns nothing and stays \<^verbatim>\<open>active\<close>. The step on such a purchase, whatever
  the store does, changes no balance and appends no Transaction. \<^verbatim>\<open>payout_count\<close> is not
  consulted.
\<close>

theorem elapsed_cycle_earns_nothing:
  assumes keys: "distinct (map p_id (purchases db))"
    and stored: "p \<in> set (purchases db)" and owner: "users db (p_user_id p) = Some u"
    and elapsed: "or_default (p_cycle_days p) 30 \<le> (now - p_purchase_date p) div day_ms"
  shows "let after = fst (snd (process_daily_payouts z now (db, [])));
             p' = (if is_due now p
                   then p\<lparr>p_status := ''completed'', p_completed_at := Some now\<rparr> else p);
             (acc', db', rest) = payout_step z now p acc (db, outcomes)
         in p' \<in> set (purchases after)
          \<and> (\<forall>q \<in> set (purchases after). p_id q = p_id p \<longrightarrow> q = p')
          \<and> (is_due now p \<longrightarrow> (\<forall>t. \<not> is_due t p'))
          \<and> (p_expiry_date p \<le> p_purchase_date p + or_default (p_cycle_days p) 30 * day_ms
                \<longrightarrow> \<not> is_due now p)
          \<and> users db' = users db \<and> transactions db' = transactions db
          \<and> processedCount acc' = processedCount acc \<and> totalAmount acc' = totalAmount acc"
proof -
  define f :: "purchase \<Rightarrow> purchase"
    where "f = (\<lambda>q. if p_user_id q \<notin> dom (users db) then q
                     else if or_default (p_cycle_days q) 30
                               - (now - p_purchase_date q) div day_ms \<le> 0
                          then q\<lparr>p_status := ''completed'', p_completed_at := Some now\<rparr>
                          else q\<lparr>p_next_payout := setHours_plus z 24 (p_next_payout q),
                                 p_total_earned := p_total_earned q
                                    + or_default (p_daily_return q) 13,
                                 p_payout_count := p_payout_count q + 1,
                                 p_last_payout := Some now\<rparr>)"
  define g where "g = (\<lambda>q. if is_due now q then f q else q)"
  define p' where "p' = (if is_due now p
                   then p\<lparr>p_status := ''completed'', p_completed_at := Some now\<rparr> else p)"
  from process_daily_payouts_rows[OF keys f_def]
  obtain r after where run: "process_daily_payouts z now (db, []) = (r, (after, []))"
    and ps: "purchases after = map g (purchases db)"
    unfolding g_def by iprover
  have fid: "p_id (f q) = p_id q" for q by (simp add: f_def)
  have gid: "p_id (g q) = p_id q" for q by (simp add: g_def fid)
  have "f p = p\<lparr>p_status := ''completed'', p_completed_at := Some now\<rparr>"
    using owner elapsed by (simp add: f_def domIff)
  then have gp: "g p = p'" by (simp add: g_def p'_def)
  have c1: "p' \<in> set (purchases after)"
    unfolding ps gp[symmetric] using stored by simp
  have c2: "\<forall>q \<in> set (purchases after). p_id q = p_id p \<longrightarrow> q = p'"
  proof (intro ballI impI)
    fix q' assume "q' \<in> set (purchases after)" and i: "p_id q' = p_id p"
    then obtain q where q: "q \<in> set (purchases db)" and e: "q' = g q"
      unfolding ps by auto
    have "p_id q = p_id p" using i unfolding e gid .
    from same_key_same_row[OF keys stored q this] have "q = p" .
    then show "q' = p'" unfolding e gp[symmetric] by simp
  qed
  have c3: "is_due now p \<longrightarrow> (\<forall>t. \<not> is_due t p')"
    by (simp add: p'_def not_due_completed)
  have c4: "p_expiry_date p \<le> p_purchase_date p + or_default (p_cycle_days p) 30 * day_ms
                \<longrightarrow> \<not> is_due now p"
    using elapsed_days_in_ms[OF elapsed] by (simp add: is_due_def)
  have c5: "let (acc', db', rest) = payout_step z now p acc (db, outcomes)
            in users db' = users db \<and> transactions db' = transactions db
          \<and> processedCount acc' = processedCount acc \<and> totalAmount acc' = totalAmount acc"
    using payout_step_on_elapsed_cycle[OF stored owner elapsed, of z acc outcomes]
    by (simp add: Let_def split_beta)
  show ?thesis
    unfolding Let_def run fst_conv snd_conv p'_def[symmetric]
    using c1 c2 c3 c4 c5 by (simp add: Let_def split_beta)
qed

text \<open>
  Two purchases as the purchase route writes them at time 0. In a zone whose clocks are
  set back one hour on day 10, the position expires 30 days and one hour after its
  purchase; the engine, run 30 days and 30 minutes after the purchase, selects it and
  marks it completed. In the zone of offset 0 the position expires 30 days after its
  purchase; the engine, run at that instant, does not select it and the row stays as it
  was.
\<close>

theorem elapsed_cycle_earns_nothing_witness:
  "snd (api_purchase (autumn_zone (10 * day_ms)) 0 1 gold_request
          (empty_db\<lparr>users := [1 \<mapsto> user500]\<rparr>, []))
     = (bought_db\<lparr>purchases :=
          [(holding (Some 13) day_ms 0)\<lparr>p_expiry_date := 30 * day_ms + hour_ms\<rparr>]\<rparr>, [])
   \<and> is_due (30 * day_ms + 1800000)
        ((holding (Some 13) day_ms 0)\<lparr>p_expiry_date := 30 * day_ms + hour_ms\<rparr>)
   \<and> (holding (Some 13) day_ms 0)
        \<lparr>p_expiry_date := 30 * day_ms + hour_ms, p_status := ''completed'',
         p_completed_at := Some (30 * day_ms + 1800000)\<rparr>
      \<in> set (purchases (fst (snd (process_daily_payouts (autumn_zone (10 * day_ms))
            (30 * day_ms + 1800000)
            (bought_db\<lparr>purchases :=
               [(holding (Some 13) day_ms 0)\<lparr>p_expiry_date := 30 * day_ms + hour_ms\<rparr>]\<rparr>,
             [])))))
   \<and> \<not> is_due (30 * day_ms) (holding (Some 13) day_ms 0)
   \<and> holding (Some 13) day_ms 0
      \<in> set (purchases (fst (snd (process_daily_payouts (fixed_zone 0) (30 * day_ms)
            (bought_db, [])))))"
  using elapsed_cycle_earns_nothing
    [where db = "bought_db\<lparr>purchases :=
               [(holding (Some 13) day_ms 0)\<lparr>p_expiry_date := 30 * day_ms + hour_ms\<rparr>]\<rparr>"
       and p = "(holding (Some 13) day_ms 0)\<lparr>p_expiry_date := 30 * day_ms + hour_ms\<rparr>"
       and u = "\<lparr>u_saldo = 400, u_inviter_id = None\<rparr>"
       and now = "30 * day_ms + 1800000" and z = "autumn_zone (10 * day_ms)"
       and acc = "\<lparr>processedCount = 0, totalAmount = 0, results = [], errors = []\<rparr>"
       and outcomes = "[]"]
    elapsed_cycle_earns_nothing
    [where db = bought_db and p = "holding (Some 13) day_ms 0"
       and u = "\<lparr>u_saldo = 400, u_inviter_id = None\<rparr>"
       and now = "30 * day_ms" and z = "fixed_zone 0"
       and acc = "\<lparr>processedCount = 0, totalAmount = 0, results = [], errors = []\<rparr>"
       and outcomes = "[]"]
  by (simp add: Let_def split_beta or_default_def is_due_def clock_defs
      api_purchase_def purchase_after_def purchase_tx_def
      rethrow_as_def never_throws_def distributeReferralBonuses_def purchaserReferrers_def
      prisma_defs store_write_simps)

section \<open>Two runs of the Payout Engine at the same instant\<close>

text \<open>
  Claim C3 says that the second of two runs at the same instant selects no purchase. A
  position bought at time 0, whose first payout is due after 24 hours, with the engine
  first run after 72 hours: the first run moves \<^verbatim>\<open>next_payout\<close> to 48 hours, the purchase
  is still due, and the second run credits it again.
\<close>

theorem late_purchase_is_credited_by_both_runs:
  "snd (api_purchase (fixed_zone 0) 0 1 gold_request
          (empty_db\<lparr>users := [1 \<mapsto> user500]\<rparr>, [])) = (bought_db, [])
   \<and> fst (process_daily_payouts (fixed_zone 0) (3 * day_ms) (bought_db, []))
       = Response 200 True (PayoutsDone 1 13)
   \<and> fst (process_daily_payouts (fixed_zone 0) (3 * day_ms)
            (snd (process_daily_payouts (fixed_zone 0) (3 * day_ms) (bought_db, []))))
       = Response 200 True (PayoutsDone 1 13)
   \<and> users (fst (snd (process_daily_payouts (fixed_zone 0) (3 * day_ms)
            (snd (process_daily_payouts (fixed_zone 0) (3 * day_ms) (bought_db, []))))))
         1 = Some \<lparr>u_saldo = 426, u_inviter_id = None\<rparr>
   \<and> map t_type (transactions (fst (snd (process_daily_payouts (fixed_zone 0) (3 * day_ms)
            (snd (process_daily_payouts (fixed_zone 0) (3 * day_ms) (bought_db, [])))))))
       = [''purchase'', ''daily_payout_auto'', ''daily_payout_auto'']"
  by (simp add: api_purchase_def purchase_after_def purchase_tx_def
      rethrow_as_def never_throws_def distributeReferralBonuses_def purchaserReferrers_def
      payout_defs prisma_defs store_write_simps Let_def)

text \<open>
  The 24 hours of the wall clock are 23 hours when the clocks are put forward in between.
  In such a zone the position bought at time 0 has its first payout due at 24 hours; first
  processed at 47 hours and 30 minutes, less than 24 hours late, it is credited by both
  runs.
\<close>

lemma short_day_is_credited_by_both_runs:
  "snd (api_purchase (spring_zone (36 * hour_ms)) 0 1 gold_request
          (empty_db\<lparr>users := [1 \<mapsto> user500]\<rparr>, []))
     = (bought_db\<lparr>purchases :=
          [(holding (Some 13) day_ms 0)\<lparr>p_expiry_date := 30 * day_ms - hour_ms\<rparr>]\<rparr>, [])
   \<and> setHours_plus (spring_zone (36 * hour_ms)) 24 day_ms = 47 * hour_ms
   \<and> map p_payout_count (purchases (fst (snd (process_daily_payouts (spring_zone (36 * hour_ms))
          (47 * hour_ms + 1800000)
          (snd (process_daily_payouts (spring_zone (36 * hour_ms)) (47 * hour_ms + 1800000)
                  (bought_db\<lparr>purchases :=
                     [(holding (Some 13) day_ms 0)\<lparr>p_expiry_date := 30 * day_ms - hour_ms\<rparr>]\<rparr>,
                   []))))))) = [2]"
  by (simp add: api_purchase_def purchase_after_def purchase_tx_def
      rethrow_as_def never_throws_def distributeReferralBonuses_def purchaserReferrers_def
      payout_defs prisma_defs store_write_simps Let_def)

text \<open>
  Claim C3, as the code has it. Two runs of the engine at the same instant, with no store
  failure, on a store with unique purchase ids. A due purchase with an owner is selected
  as due again by the second run if and only if its \<^verbatim>\<open>next_payout\<close>, moved by the first run
  by 24 hours of the wall clock, is still not after now and its elapsed days are below
  \<^verbatim>\<open>cycle_days\<close>. A due purchase without an owner is left as it was by the first run. The
  first run makes no purchase due that was not due before. So when every due purchase
  has an owner and either is less than such a day behind or has completed its cycle, the
  second run selects no purchase, answers that there is nothing to process and changes
  nothing.
\<close>

theorem second_run_selects_only_purchases_a_day_late:
  assumes keys: "distinct (map p_id (purchases db))"
  shows "let after = fst (snd (process_daily_payouts z now (db, [])))
         in (\<forall>p \<in> set (purchases db). is_due now p \<and> p_user_id p \<in> dom (users db) \<longrightarrow>
               ((\<exists>q \<in> set (purchases after). p_id q = p_id p \<and> is_due now q)
                \<longleftrightarrow> setHours_plus z 24 (p_next_payout p) \<le> now
                    \<and> (now - p_purchase_date p) div day_ms < or_default (p_cycle_days p) 30))
          \<and> (\<forall>p \<in> set (purchases db). is_due now p \<and> p_user_id p \<notin> dom (users db) \<longrightarrow>
               p \<in> set (purchases after))
          \<and> (\<forall>q \<in> set (purchases after). is_due now q \<longrightarrow>
               (\<exists>p \<in> set (purchases db). p_id p = p_id q \<and> is_due now p))
          \<and> ((\<forall>p \<in> set (purchases db). is_due now p \<longrightarrow>
                  p_user_id p \<in> dom (users db)
                  \<and> (now < setHours_plus z 24 (p_next_payout p)
                      \<or> or_default (p_cycle_days p) 30 \<le> (now - p_purchase_date p) div day_ms))
              \<longrightarrow> process_daily_payouts z now (snd (process_daily_payouts z now (db, [])))
                  = (Response 200 True NothingToProcess,
                     snd (process_daily_payouts z now (db, []))))"
proof -
  define f :: "purchase \<Rightarrow> purchase"
    where "f = (\<lambda>q. if p_user_id q \<notin> dom (users db) then q
                     else if or_default (p_cycle_days q) 30
                               - (now - p_purchase_date q) div day_ms \<le> 0
                          then q\<lparr>p_status := ''completed'', p_completed_at := Some now\<rparr>
                          else q\<lparr>p_next_payout := setHours_plus z 24 (p_next_payout q),
                                 p_total_earned := p_total_earned q
                                    + or_default (p_daily_return q) 13,
                                 p_payout_count := p_payout_count q + 1,
                                 p_last_payout := Some now\<rparr>)"
  define g where "g = (\<lambda>q. if is_due now q then f q else q)"
  from process_daily_payouts_rows[OF keys f_def]
  obtain r db' where run: "process_daily_payouts z now (db, []) = (r, (db', []))"
    and ps: "purchases db' = map g (purchases db)"
    unfolding g_def by iprover
  have fid: "p_id (f q) = p_id q" for q by (simp add: f_def)
  have gid: "p_id (g q) = p_id q" for q by (simp add: g_def fid)
  have f_orphan: "f q = q" if "p_user_id q \<notin> dom (users db)" for q
    using that by (simp add: f_def)
  have f_due: "is_due now (f q) \<longleftrightarrow>
                 setHours_plus z 24 (p_next_payout q) \<le> now
                 \<and> (now - p_purchase_date q) div day_ms < or_default (p_cycle_days q) 30"
    if "is_due now q" and "p_user_id q \<in> dom (users db)" for q
  proof (cases "or_default (p_cycle_days q) 30 - (now - p_purchase_date q) div day_ms \<le> 0")
    case True
    then have "f q = q\<lparr>p_status := ''completed'', p_completed_at := Some now\<rparr>"
      using that(2) by (simp add: f_def)
    then show ?thesis using True by (simp only: not_due_completed) simp
  next
    case False
    then have "f q = q\<lparr>p_next_payout := setHours_plus z 24 (p_next_payout q),
                        p_total_earned := p_total_earned q + or_default (p_daily_return q) 13,
                        p_payout_count := p_payout_count q + 1,
                        p_last_payout := Some now\<rparr>"
      using that(2) by (simp add: f_def)
    then show ?thesis using False that(1) by (simp only: due_credited) (simp add: is_due_def)
  qed
  have g_due: "is_due now (g q) \<Longrightarrow> is_due now q" for q
    by (cases "is_due now q") (simp_all add: g_def)
  have rows: "q' \<in> set (purchases db') \<longleftrightarrow> (\<exists>q \<in> set (purchases db). q' = g q)" for q'
    unfolding ps by auto
  have one: "(\<exists>q \<in> set (purchases db'). p_id q = p_id p \<and> is_due now q) \<longleftrightarrow> is_due now (g p)"
    if p: "p \<in> set (purchases db)" for p
  proof
    assume "\<exists>q \<in> set (purchases db'). p_id q = p_id p \<and> is_due now q"
    then obtain q' where q': "q' \<in> set (purchases db')" and i: "p_id q' = p_id p"
      and d: "is_due now q'" by blast
    from q' obtain q where q: "q \<in> set (purchases db)" and e: "q' = g q"
      unfolding rows by blast
    have "p_id q = p_id p" using i e gid by simp
    from same_key_same_row[OF keys p q this] have "q = p" .
    then show "is_due now (g p)" using d e by simp
  next
    assume "is_due now (g p)"
    moreover have "g p \<in> set (purchases db')" unfolding rows using p by blast
    ultimately show "\<exists>q \<in> set (purchases db'). p_id q = p_id p \<and> is_due now q"
      using gid by blast
  qed
  have c1: "\<forall>p \<in> set (purchases db). is_due now p \<and> p_user_id p \<in> dom (users db) \<longrightarrow>
               ((\<exists>q \<in> set (purchases db'). p_id q = p_id p \<and> is_due now q)
                \<longleftrightarrow> setHours_plus z 24 (p_next_payout p) \<le> now
                    \<and> (now - p_purchase_date p) div day_ms < or_default (p_cycle_days p) 30)"
  proof (intro ballI impI, elim conjE)
    fix p assume p: "p \<in> set (purchases db)" and d: "is_due now p"
      and o: "p_user_id p \<in> dom (users db)"
    have "g p = f p" using d by (simp add: g_def)
    then show "(\<exists>q \<in> set (purchases db'). p_id q = p_id p \<and> is_due now q)
                \<longleftrightarrow> setHours_plus z 24 (p_next_payout p) \<le> now
                    \<and> (now - p_purchase_date p) div day_ms < or_default (p_cycle_days p) 30"
      unfolding one[OF p] using f_due[OF d o] by simp
  qed
  have c2: "\<forall>p \<in> set (purchases db). is_due now p \<and> p_user_id p \<notin> dom (users db) \<longrightarrow>
               p \<in> set (purchases db')"
  proof (intro ballI impI, elim conjE)
    fix p assume p: "p \<in> set (purchases db)" and d: "is_due now p"
      and o: "p_user_id p \<notin> dom (users db)"
    have e: "g p = p" using d f_orphan[OF o] by (simp add: g_def)
    have "g p \<in> set (purchases db')" unfolding rows using p by blast
    then show "p \<in> set (purchases db')" unfolding e .
  qed
  have c3: "\<forall>q \<in> set (purchases db'). is_due now q \<longrightarrow>
               (\<exists>p \<in> set (purchases db). p_id p = p_id q \<and> is_due now p)"
  proof (intro ballI impI)
    fix q' assume q': "q' \<in> set (purchases db')" and d: "is_due now q'"
    from q' obtain q where q: "q \<in> set (purchases db)" and e: "q' = g q"
      unfolding rows by blast
    have dq: "is_due now q" using g_due d e by simp
    have "p_id q = p_id q'" unfolding e gid ..
    then have "p_id q = p_id q' \<and> is_due now q" using dq by (rule conjI)
    then show "\<exists>p \<in> set (purchases db). p_id p = p_id q' \<and> is_due now p"
      using q by (rule bexI)
  qed
  have c4: "(\<forall>p \<in> set (purchases db). is_due now p \<longrightarrow>
                  p_user_id p \<in> dom (users db)
                  \<and> (now < setHours_plus z 24 (p_next_payout p)
                      \<or> or_default (p_cycle_days p) 30 \<le> (now - p_purchase_date p) div day_ms))
              \<longrightarrow> process_daily_payouts z now (db', [])
                  = (Response 200 True NothingToProcess, (db', []))"
  proof
    assume H: "\<forall>p \<in> set (purchases db). is_due now p \<longrightarrow>
                  p_user_id p \<in> dom (users db)
                  \<and> (now < setHours_plus z 24 (p_next_payout p)
                      \<or> or_default (p_cycle_days p) 30 \<le> (now - p_purchase_date p) div day_ms)"
    have "\<not> is_due now q'" if q': "q' \<in> set (purchases db')" for q'
    proof
      assume d: "is_due now q'"
      from q' obtain q where q: "q \<in> set (purchases db)" and e: "q' = g q"
        unfolding rows by blast
      have dq: "is_due now q" using g_due d e by simp
      then have o: "p_user_id q \<in> dom (users db)"
        and w: "now < setHours_plus z 24 (p_next_payout q)
                \<or> or_default (p_cycle_days q) 30 \<le> (now - p_purchase_date q) div day_ms"
        using H q by blast+
      have "g q = f q" using dq by (simp add: g_def)
      then have "is_due now (f q)" using d e by simp
      then show False using f_due[OF dq o] w by linarith
    qed
    then have "filter (is_due now) (purchases db') = []" by (simp add: filter_empty_conv)
    then show "process_daily_payouts z now (db', [])
                  = (Response 200 True NothingToProcess, (db', []))"
      by (simp add: process_daily_payouts_def)
  qed
  show ?thesis
    unfolding Let_def run fst_conv snd_conv by (intro conjI c1 c2 c3 c4)
qed

theorem second_run_selects_only_purchases_a_day_late_witness:
  "distinct (map p_id (purchases bought_db))
   \<and> is_due (day_ms + 5 * hour_ms) (holding (Some 13) day_ms 0)
   \<and> \<not> (\<exists>q \<in> set (purchases (fst (snd (process_daily_payouts (fixed_zone 0)
                (day_ms + 5 * hour_ms) (bought_db, []))))).
           p_id q = 1 \<and> is_due (day_ms + 5 * hour_ms) q)
   \<and> process_daily_payouts (fixed_zone 0) (day_ms + 5 * hour_ms)
        (snd (process_daily_payouts (fixed_zone 0) (day_ms + 5 * hour_ms) (bought_db, [])))
      = (Response 200 True NothingToProcess,
         snd (process_daily_payouts (fixed_zone 0) (day_ms + 5 * hour_ms) (bought_db, [])))"
  using second_run_selects_only_purchases_a_day_late
    [where db = bought_db and z = "fixed_zone 0" and now = "day_ms + 5 * hour_ms"]
  by (simp add: Let_def or_default_def is_due_def clock_defs)

section \<open>Referral bonuses\<close>

lemma floor_percentage:
  "\<lfloor>of_int a * (25 / 100 :: rat)\<rfloor> = a * 25 div 100"
  "\<lfloor>of_int a * (2 / 100 :: rat)\<rfloor> = a * 2 div 100"
  "\<lfloor>of_int a * (1 / 100 :: rat)\<rfloor> = a div 100"
proof -
  have "of_int a * (25 / 100 :: rat) = of_int (a * 25) / of_int 100" by simp
  then show "\<lfloor>of_int a * (25 / 100 :: rat)\<rfloor> = a * 25 div 100"
    by (simp only: floor_divide_of_int_eq)
  have "of_int a * (2 / 100 :: rat) = of_int (a * 2) / of_int 100" by simp
  then show "\<lfloor>of_int a * (2 / 100 :: rat)\<rfloor> = a * 2 div 100"
    by (simp only: floor_divide_of_int_eq)
  have "of_int a * (1 / 100 :: rat) = of_int a / of_int 100" by simp
  then show "\<lfloor>of_int a * (1 / 100 :: rat)\<rfloor> = a div 100"
    by (simp only: floor_divide_of_int_eq)
qed

lemma bonus_credit_carried:
  assumes u: "users db sponsor_id = Some u" and c: "carried_out 3 outcomes"
  shows "bonus_credit now purchaserId purchaseAmount level pct sponsor_id bonusAmount acc
           (db, outcomes)
         = (Inr (add_bonus acc level sponsor_id bonusAmount),
            (db\<lparr>users := (users db)(sponsor_id \<mapsto> u\<lparr>u_saldo := u_saldo u + bonusAmount\<rparr>),
                transactions := transactions db @
                  [\<lparr>t_user_id = sponsor_id, t_type = ''referral_bonus'',
                    t_amount = bonusAmount, t_balance_after = u_saldo u + bonusAmount,
                    t_created_at = now\<rparr>],
                referralBonuses := referralBonuses db @
                  [\<lparr>rb_referrer_id = sponsor_id, rb_referred_user_id = purchaserId,
                    rb_level = level, rb_purchase_amount = purchaseAmount,
                    rb_bonus_amount = bonusAmount, rb_bonus_percentage = pct * 100,
                    rb_created_at = now\<rparr>]\<rparr>, drop 3 outcomes))"
  using u
  by (simp add: bonus_credit_def prisma_defs Let_def
      store_write_first[OF c] store_write_drop[OF c] eval_nat_numeral)

text \<open>
  One step of the distributor. For every ReferralLevel row of the purchaser at level 1,
  2 or 3 whose sponsor exists, the step computes \<open>bonusAmount\<close> as the floor of the purchase amount
  times 25% at level 1, 2% at level 2 and 1% at level 3. When \<open>bonusAmount\<close> is positive
  and the three writes are carried out, the sponsor's balance grows by \<open>bonusAmount\<close>,
  one Transaction of type \<^verbatim>\<open>referral_bonus\<close> with \<^verbatim>\<open>balance_after\<close> equal to the sponsor's new
  balance and one ReferralBonus row are appended. When \<open>bonusAmount\<close> is not positive,
  nothing is written for that level: database, pending outcomes and result are unchanged.
\<close>

lemma bonus_step_credits_floor_of_percentage:
  assumes level: "rl_level r \<in> {1, 2, 3}"
    and current: "users db (rl_referrer_id r) = Some u"
    and c: "carried_out 3 outcomes"
  shows "let percentage = (if rl_level r = 1 then 25 / 100
                           else if rl_level r = 2 then 2 / 100 else 1 / 100 :: rat);
             bonusAmount = \<lfloor>of_int purchaseAmount * percentage\<rfloor>;
             (acc', db', rest) =
                bonus_step now purchaserId purchaseAmount (r, Some sponsor) acc (db, outcomes)
         in (0 < bonusAmount \<longrightarrow>
               users db' = (users db)(rl_referrer_id r \<mapsto> u\<lparr>u_saldo := u_saldo u + bonusAmount\<rparr>)
             \<and> transactions db' = transactions db @
                  [\<lparr>t_user_id = rl_referrer_id r, t_type = ''referral_bonus'',
                    t_amount = bonusAmount, t_balance_after = u_saldo u + bonusAmount,
                    t_created_at = now\<rparr>]
             \<and> referralBonuses db' = referralBonuses db @
                  [\<lparr>rb_referrer_id = rl_referrer_id r, rb_referred_user_id = purchaserId,
                    rb_level = rl_level r, rb_purchase_amount = purchaseAmount,
                    rb_bonus_amount = bonusAmount, rb_bonus_percentage = percentage * 100,
                    rb_created_at = now\<rparr>]
             \<and> total acc' = total acc + bonusAmount)
          \<and> (\<not> 0 < bonusAmount \<longrightarrow> db' = db \<and> rest = outcomes \<and> acc' = acc)"
  using level
  by (auto simp add: bonus_step_def bonusPercentages_def Let_def
      bonus_credit_carried[OF current c] add_bonus_def)

lemma bonus_step_credits_floor_of_percentage_example:
  "(let (acc', db', rest) =
          bonus_step 0 10 500 (\<lparr>rl_referrer_id = 1, rl_user_id = 10, rl_level = 1\<rparr>,
                               Some (member (Some 2)))
            \<lparr>level1 = 0, level2 = 0, level3 = 0, total = 0, details = []\<rparr> (upline_db, [])
    in users db' 1 = Some \<lparr>u_saldo = 625, u_inviter_id = Some 2\<rparr>
     \<and> transactions db' = [\<lparr>t_user_id = 1, t_type = ''referral_bonus'', t_amount = 125,
                              t_balance_after = 625, t_created_at = 0\<rparr>]
     \<and> map rb_bonus_amount (referralBonuses db') = [125]
     \<and> total acc' = 125)"
  using bonus_step_credits_floor_of_percentage
    [of "\<lparr>rl_referrer_id = 1, rl_user_id = 10, rl_level = 1\<rparr>" upline_db "member (Some 2)"
        "[]" 500 0 10 "member (Some 2)"
        "\<lparr>level1 = 0, level2 = 0, level3 = 0, total = 0, details = []\<rparr>"]
  by (simp add: Let_def split_beta floor_percentage)

text \<open>
  Claim C5 says that a sponsor's balance is credited if and only if the bonus is
  positive, and then with a Transaction of type \<^verbatim>\<open>referral_bonus\<close> and a ReferralBonus row.
  The purchase route hands the distributor the client \<^verbatim>\<open>prisma\<close> as its \<^verbatim>\<open>tx\<close>, so the three
  writes of a level are calls of their own, and an error in one of them is caught and
  logged per level. Evaluated on account 10, invited by account 1 of the chain, with its
  ReferralLevel rows as \<open>createReferralNetwork\<close> writes them, buying for 1000, where the
  three writes of the purchase and the update of the first sponsor's balance are carried
  out and the insert of the first sponsor's Transaction throws: the route answers
  success, account 1 holds 750 instead of 500 and has neither a Transaction nor a
  ReferralBonus row, and the response reports 0 for level 1. Levels 2 and 3 are credited
  20 and 10 with their rows.
\<close>

theorem purchase_credits_sponsor_without_transaction_row:
  "(let w0 = createReferralNetwork 1 10 (team_db, []);
        run = api_purchase (fixed_zone 0) 0 10
                \<lparr>q_product_id = Some ''7'', q_product_name = Some ''gold'',
                 q_amount = Some 1000, q_quantity = Some 1, q_daily_return = Some 13,
                 q_cycle_days = Some 30\<rparr>
                (fst w0, [False, False, False, False, True])
    in map rl_referrer_id (referralLevels (fst w0)) = [1, 2, 3]
     \<and> fst run = Response 200 True
                   (PurchaseDone 1 0 0
                      \<lparr>level1 = 0, level2 = 20, level3 = 10, total = 30,
                       details = [\<lparr>bd_level = 2, bd_sponsor_id = 2, bd_amount = 20\<rparr>,
                                  \<lparr>bd_level = 3, bd_sponsor_id = 3, bd_amount = 10\<rparr>]\<rparr>)
     \<and> map (\<lambda>x. map_option u_saldo (users (fst (snd run)) x)) [10, 1, 2, 3]
         = [Some 0, Some 750, Some 520, Some 510]
     \<and> map t_user_id (transactions (fst (snd run))) = [10, 2, 3]
     \<and> map rb_referrer_id (referralBonuses (fst (snd run))) = [2, 3])"
  by (simp add: Let_def api_purchase_def purchase_after_def purchase_tx_def
      rethrow_as_def never_throws_def clock_defs or_default_def
      createReferralNetwork_def createReferralNetwork_try_def
      distributeReferralBonuses_def purchaserReferrers_def bonus_step_def bonus_credit_def
      bonusPercentages_def add_bonus_def prisma_defs store_write_simps floor_percentage)

section \<open>The fan-out of referral bonuses\<close>

lemma createReferralNetwork_rows:
  assumes "users db a1 = Some u1" and "u_inviter_id u1 = Some a2"
    and "users db a2 = Some u2" and "u_inviter_id u2 = Some a3"
  shows "users (fst (createReferralNetwork a1 n (db, outcomes))) = users db
       \<and> transactions (fst (createReferralNetwork a1 n (db, outcomes))) = transactions db
       \<and> referralBonuses (fst (createReferralNetwork a1 n (db, outcomes)))
           = referralBonuses db
       \<and> (\<exists>new. referralLevels (fst (createReferralNetwork a1 n (db, outcomes)))
                 = referralLevels db @ new
             \<and> new \<in> {[],
                      [\<lparr>rl_referrer_id = a1, rl_user_id = n, rl_level = 1\<rparr>],
                      [\<lparr>rl_referrer_id = a1, rl_user_id = n, rl_level = 1\<rparr>,
                       \<lparr>rl_referrer_id = a2, rl_user_id = n, rl_level = 2\<rparr>],
                      [\<lparr>rl_referrer_id = a1, rl_user_id = n, rl_level = 1\<rparr>,
                       \<lparr>rl_referrer_id = a2, rl_user_id = n, rl_level = 2\<rparr>,
                       \<lparr>rl_referrer_id = a3, rl_user_id = n, rl_level = 3\<rparr>]})"
proof (cases outcomes rule: three_writes_cases)
  case f1
  then show ?thesis
    by (simp add: createReferralNetwork_def createReferralNetwork_try_def prisma_defs
        store_write_simps)
next
  case f2
  then show ?thesis using assms
    by (simp add: createReferralNetwork_def createReferralNetwork_try_def prisma_defs
        store_write_simps)
next
  case f3
  then show ?thesis using assms
    by (simp add: createReferralNetwork_def createReferralNetwork_try_def prisma_defs
        store_write_simps)
next
  case ok
  show ?thesis using assms
    by (auto simp add: createReferralNetwork_def createReferralNetwork_try_def prisma_defs
        store_write_first[OF ok] store_write_drop[OF ok] eval_nat_numeral
        split: option.splits)
qed

lemma only_touches_refl: "only_touches S db db"
  by (simp add: only_touches_def)

lemma only_touches_mono: "only_touches S db db' \<Longrightarrow> S \<subseteq> T \<Longrightarrow> only_touches T db db'"
  unfolding only_touches_def by (meson subsetD)

lemma only_touches_trans:
  assumes "only_touches S db db1" and "only_touches S db1 db2"
  shows "only_touches S db db2"
proof -
  from assms(1) obtain t1 b1 where
    u1: "\<forall>x. x \<notin> S \<longrightarrow> users db1 x = users db x"
    and t1: "transactions db1 = transactions db @ t1" "\<forall>t \<in> set t1. t_user_id t \<in> S"
    and b1: "referralBonuses db1 = referralBonuses db @ b1" "\<forall>b \<in> set b1. rb_referrer_id b \<in> S"
    and l1: "referralLevels db1 = referralLevels db" "purchases db1 = purchases db"
      "dom (users db1) = dom (users db)"
    unfolding only_touches_def by iprover
  from assms(2) obtain t2 b2 where
    u2: "\<forall>x. x \<notin> S \<longrightarrow> users db2 x = users db1 x"
    and t2: "transactions db2 = transactions db1 @ t2" "\<forall>t \<in> set t2. t_user_id t \<in> S"
    and b2: "referralBonuses db2 = referralBonuses db1 @ b2" "\<forall>b \<in> set b2. rb_referrer_id b \<in> S"
    and l2: "referralLevels db2 = referralLevels db1" "purchases db2 = purchases db1"
      "dom (users db2) = dom (users db1)"
    unfolding only_touches_def by iprover
  have "\<forall>x. x \<notin> S \<longrightarrow> users db2 x = users db x" using u1 u2 by simp
  moreover have "transactions db2 = transactions db @ (t1 @ t2)" using t1(1) t2(1) by simp
  moreover have "\<forall>t \<in> set (t1 @ t2). t_user_id t \<in> S" using t1(2) t2(2) by auto
  moreover have "referralBonuses db2 = referralBonuses db @ (b1 @ b2)" using b1(1) b2(1) by simp
  moreover have "\<forall>b \<in> set (b1 @ b2). rb_referrer_id b \<in> S" using b1(2) b2(2) by auto
  moreover have "referralLevels db2 = referralLevels db" using l1 l2 by simp
  moreover have "purchases db2 = purchases db" using l1 l2 by simp
  moreover have "dom (users db2) = dom (users db)" using l1 l2 by simp
  ultimately show ?thesis unfolding only_touches_def by blast
qed

lemma bonus_credit_only_touches:
  "only_touches {sid} db
     (fst (snd (bonus_credit now pid amt level pct sid b acc (db, outcomes))))"
proof (cases "users db sid")
  case None
  then show ?thesis
    by (simp add: bonus_credit_def prisma_defs only_touches_def)
next
  case (Some u)
  then have d: "insert sid (dom (users db)) = dom (users db)"
    by (simp add: insert_absorb domI)
  show ?thesis
  proof (cases outcomes rule: three_writes_cases)
    case f1
    then show ?thesis using Some
      by (simp add: bonus_credit_def prisma_defs store_write_simps only_touches_def)
  next
    case f2
    then show ?thesis using Some d
      by (simp add: bonus_credit_def prisma_defs store_write_simps only_touches_def Let_def)
  next
    case f3
    then show ?thesis using Some d
      by (simp add: bonus_credit_def prisma_defs store_write_simps only_touches_def Let_def)
  next
    case ok
    show ?thesis using d
      by (simp add: bonus_credit_carried[OF Some ok] only_touches_def)
  qed
qed

lemma bonus_step_only_touches:
  "only_touches {rl_referrer_id (fst r)} (fst w)
     (fst (snd (bonus_step now pid amt r acc w)))"
proof -
  obtain db outcomes where w: "w = (db, outcomes)" by (cases w)
  show ?thesis
  proof (cases "bonusPercentages (rl_level (fst r))")
    case None
    then show ?thesis by (simp add: bonus_step_def only_touches_refl)
  next
    case (Some pct)
    show ?thesis
    proof (cases "snd r")
      case None
      with Some show ?thesis by (simp add: bonus_step_def only_touches_refl)
    next
      case sp: (Some sponsor)
      show ?thesis
      proof (cases "0 < \<lfloor>of_int amt * pct\<rfloor>")
        case False
        with Some sp show ?thesis by (simp add: bonus_step_def only_touches_refl Let_def)
      next
        case True
        let ?c = "bonus_credit now pid amt (rl_level (fst r)) pct (rl_referrer_id (fst r))
                    \<lfloor>of_int amt * pct\<rfloor> acc (db, outcomes)"
        have "fst (snd (bonus_step now pid amt r acc w)) = fst (snd ?c)"
          using Some sp True
          by (simp add: bonus_step_def w Let_def split: prod.splits sum.splits)
        moreover have "only_touches {rl_referrer_id (fst r)} db (fst (snd ?c))"
          by (rule bonus_credit_only_touches)
        ultimately show ?thesis by (simp add: w)
      qed
    qed
  qed
qed

lemma bonus_loop_only_touches:
  "only_touches ((rl_referrer_id \<circ> fst) ` set rs) (fst w)
     (fst (snd (bonus_loop now pid amt rs acc w)))"
proof (induction rs arbitrary: acc w)
  case Nil
  then show ?case by (simp add: only_touches_refl)
next
  case (Cons r rs)
  obtain acc1 w1 where step: "bonus_step now pid amt r acc w = (acc1, w1)"
    by (cases "bonus_step now pid amt r acc w")
  have s1: "only_touches {rl_referrer_id (fst r)} (fst w) (fst w1)"
    using bonus_step_only_touches[of r w now pid amt acc] step by simp
  have s2: "only_touches ((rl_referrer_id \<circ> fst) ` set rs) (fst w1)
              (fst (snd (bonus_loop now pid amt rs acc1 w1)))"
    by (rule Cons.IH)
  let ?S = "(rl_referrer_id \<circ> fst) ` set (r # rs)"
  have "only_touches ?S (fst w) (fst w1)"
    by (rule only_touches_mono[OF s1]) simp
  moreover have "only_touches ?S (fst w1) (fst (snd (bonus_loop now pid amt rs acc1 w1)))"
    by (rule only_touches_mono[OF s2]) auto
  ultimately have "only_touches ?S (fst w) (fst (snd (bonus_loop now pid amt rs acc1 w1)))"
    by (rule only_touches_trans)
  then show ?case using step by simp
qed

lemma distributeReferralBonuses_only_touches:
  "only_touches (rl_referrer_id ` {r \<in> set (referralLevels (fst w)). rl_user_id r = pid})
     (fst w) (fst (snd (distributeReferralBonuses now pid amt w)))"
proof -
  have S: "(rl_referrer_id \<circ> fst) ` set (purchaserReferrers (fst w) pid)
           = rl_referrer_id ` {r \<in> set (referralLevels (fst w)). rl_user_id r = pid}"
    by (auto simp add: purchaserReferrers_def image_iff)
  show ?thesis
    using bonus_loop_only_touches[of "purchaserReferrers (fst w) pid" w now pid amt]
    unfolding S
    by (simp add: distributeReferralBonuses_def Let_def only_touches_refl)
qed

lemma only_touches_outside:
  assumes "only_touches S db db'" and "a \<notin> S" and "b \<notin> S"
  shows "users db' a = users db a"
    and "filter (\<lambda>t. t_user_id t = a \<or> t_user_id t = b) (transactions db')
         = filter (\<lambda>t. t_user_id t = a \<or> t_user_id t = b) (transactions db)"
    and "filter (\<lambda>x. rb_referrer_id x = a \<or> rb_referrer_id x = b) (referralBonuses db')
         = filter (\<lambda>x. rb_referrer_id x = a \<or> rb_referrer_id x = b) (referralBonuses db)"
proof -
  from assms(1) obtain ts bs where
    u: "\<forall>x. x \<notin> S \<longrightarrow> users db' x = users db x"
    and t: "transactions db' = transactions db @ ts" "\<forall>t \<in> set ts. t_user_id t \<in> S"
    and b: "referralBonuses db' = referralBonuses db @ bs" "\<forall>b \<in> set bs. rb_referrer_id b \<in> S"
    unfolding only_touches_def by iprover
  show "users db' a = users db a" using u assms(2) by simp
  have "filter (\<lambda>t. t_user_id t = a \<or> t_user_id t = b) ts = []"
    using t(2) assms(2,3) by (auto simp add: filter_empty_conv)
  then show "filter (\<lambda>t. t_user_id t = a \<or> t_user_id t = b) (transactions db')
         = filter (\<lambda>t. t_user_id t = a \<or> t_user_id t = b) (transactions db)"
    by (simp add: t(1))
  have "filter (\<lambda>x. rb_referrer_id x = a \<or> rb_referrer_id x = b) bs = []"
    using b(2) assms(2,3) by (auto simp add: filter_empty_conv)
  then show "filter (\<lambda>x. rb_referrer_id x = a \<or> rb_referrer_id x = b) (referralBonuses db')
         = filter (\<lambda>x. rb_referrer_id x = a \<or> rb_referrer_id x = b) (referralBonuses db)"
    by (simp add: b(1))
qed

text \<open>
  Claim C6. Take a purchaser with no ReferralLevel rows yet whose inviter chain is
  \<open>a1\<close>, \<open>a2\<close>, \<open>a3\<close>, \<open>a4\<close>, \<open>a5\<close>, the last two different from the first three.
  Whatever store writes fail, registration's \<open>createReferralNetwork\<close> leaves at most three
  rows for the purchaser, all at levels 1 to 3 with referrers among \<open>a1\<close>, \<open>a2\<close>, \<open>a3\<close>;
  and after the distribution for a purchase of any amount, \<open>a4\<close> and \<open>a5\<close> have the
  account rows they had, no new Transaction and no new ReferralBonus row. The
  distributor's table has no percentage for a level outside 1 to 3.
\<close>

theorem referral_fan_out_stops_at_level_3:
  assumes chain: "users db a1 = Some u1" "u_inviter_id u1 = Some a2"
      "users db a2 = Some u2" "u_inviter_id u2 = Some a3"
      "users db a3 = Some u3" "u_inviter_id u3 = Some a4"
      "users db a4 = Some u4" "u_inviter_id u4 = Some a5"
      "users db a5 = Some u5"
    and fresh: "\<forall>r \<in> set (referralLevels db). rl_user_id r \<noteq> purchaser"
    and apart: "a4 \<notin> {a1, a2, a3}" "a5 \<notin> {a1, a2, a3}"
  shows "let w1 = createReferralNetwork a1 purchaser (db, outcomes);
             (bonusResults, w2) = distributeReferralBonuses now purchaser amount w1
         in length (filter (\<lambda>r. rl_user_id r = purchaser) (referralLevels (fst w1))) \<le> 3
          \<and> (\<forall>r \<in> set (referralLevels (fst w1)). rl_user_id r = purchaser \<longrightarrow>
                 rl_level r \<in> {1, 2, 3} \<and> rl_referrer_id r \<in> {a1, a2, a3})
          \<and> users (fst w2) a4 = Some u4 \<and> users (fst w2) a5 = Some u5
          \<and> filter (\<lambda>t. t_user_id t = a4 \<or> t_user_id t = a5) (transactions (fst w2))
              = filter (\<lambda>t. t_user_id t = a4 \<or> t_user_id t = a5) (transactions db)
          \<and> filter (\<lambda>b. rb_referrer_id b = a4 \<or> rb_referrer_id b = a5)
                (referralBonuses (fst w2))
              = filter (\<lambda>b. rb_referrer_id b = a4 \<or> rb_referrer_id b = a5)
                  (referralBonuses db)
          \<and> (\<forall>level. level \<notin> {1, 2, 3} \<longrightarrow> bonusPercentages level = None)"
proof -
  define w1 where "w1 = createReferralNetwork a1 purchaser (db, outcomes)"
  define db1 where "db1 = fst w1"
  define db2 where "db2 = fst (snd (distributeReferralBonuses now purchaser amount w1))"
  from createReferralNetwork_rows[OF chain(1-4), of purchaser outcomes]
  obtain new where same: "users db1 = users db" "transactions db1 = transactions db"
      "referralBonuses db1 = referralBonuses db"
    and rows: "referralLevels db1 = referralLevels db @ new"
    and new: "new \<in> {[],
                      [\<lparr>rl_referrer_id = a1, rl_user_id = purchaser, rl_level = 1\<rparr>],
                      [\<lparr>rl_referrer_id = a1, rl_user_id = purchaser, rl_level = 1\<rparr>,
                       \<lparr>rl_referrer_id = a2, rl_user_id = purchaser, rl_level = 2\<rparr>],
                      [\<lparr>rl_referrer_id = a1, rl_user_id = purchaser, rl_level = 1\<rparr>,
                       \<lparr>rl_referrer_id = a2, rl_user_id = purchaser, rl_level = 2\<rparr>,
                       \<lparr>rl_referrer_id = a3, rl_user_id = purchaser, rl_level = 3\<rparr>]}"
    unfolding db1_def w1_def by iprover
  have old: "filter (\<lambda>r. rl_user_id r = purchaser) (referralLevels db) = []"
    using fresh by (simp add: filter_empty_conv)
  have mine: "filter (\<lambda>r. rl_user_id r = purchaser) (referralLevels db1)
              = filter (\<lambda>r. rl_user_id r = purchaser) new"
    by (simp add: rows old)
  have count: "length (filter (\<lambda>r. rl_user_id r = purchaser) (referralLevels db1)) \<le> 3"
    unfolding mine using new by auto
  have levels: "\<forall>r \<in> set (referralLevels db1). rl_user_id r = purchaser \<longrightarrow>
                 rl_level r \<in> {1, 2, 3} \<and> rl_referrer_id r \<in> {a1, a2, a3}"
  proof (intro ballI impI)
    fix r assume "r \<in> set (referralLevels db1)" and "rl_user_id r = purchaser"
    then have "r \<in> set new" using rows fresh by auto
    then show "rl_level r \<in> {1, 2, 3} \<and> rl_referrer_id r \<in> {a1, a2, a3}"
      using new by auto
  qed
  have sub: "rl_referrer_id ` {r \<in> set (referralLevels (fst w1)). rl_user_id r = purchaser}
             \<subseteq> {a1, a2, a3}"
    using levels unfolding db1_def by blast
  have "only_touches {a1, a2, a3} db1 db2"
    unfolding db1_def db2_def
    by (rule only_touches_mono[OF distributeReferralBonuses_only_touches sub])
  from only_touches_outside[OF this apart]
  have out: "users db2 a4 = users db1 a4"
    "filter (\<lambda>t. t_user_id t = a4 \<or> t_user_id t = a5) (transactions db2)
     = filter (\<lambda>t. t_user_id t = a4 \<or> t_user_id t = a5) (transactions db1)"
    "filter (\<lambda>x. rb_referrer_id x = a4 \<or> rb_referrer_id x = a5) (referralBonuses db2)
     = filter (\<lambda>x. rb_referrer_id x = a4 \<or> rb_referrer_id x = a5) (referralBonuses db1)"
    by simp_all
  from only_touches_outside(1)[OF \<open>only_touches {a1, a2, a3} db1 db2\<close> apart(2) apart(1)]
  have out5: "users db2 a5 = users db1 a5" .
  have pct: "\<forall>level. level \<notin> {1, 2, 3} \<longrightarrow> bonusPercentages level = None"
    by (simp add: bonusPercentages_def)
  show ?thesis
    unfolding Let_def split_beta w1_def[symmetric]
    using count levels out out5 pct same chain(7,9)
    unfolding db1_def db2_def by simp
qed

theorem referral_fan_out_stops_at_level_3_witness:
  "(let w1 = createReferralNetwork 1 10 (upline_db, []);
        w2 = snd (distributeReferralBonuses 0 10 1000 w1)
    in map rl_referrer_id (referralLevels (fst w1)) = [1, 2, 3]
     \<and> map (\<lambda>x. map_option u_saldo (users (fst w2) x)) [1, 2, 3, 4, 5]
         = [Some 750, Some 520, Some 510, Some 500, Some 500]
     \<and> map t_user_id (transactions (fst w2)) = [1, 2, 3]
     \<and> map rb_referrer_id (referralBonuses (fst w2)) = [1, 2, 3])"
  using referral_fan_out_stops_at_level_3
    [of upline_db 1 "member (Some 2)" 2 "member (Some 3)" 3 "member (Some 4)" 4
        "member (Some 5)" 5 "member None" 10 "[]" 0 1000]
  by (simp add: Let_def split_beta createReferralNetwork_def createReferralNetwork_try_def
      distributeReferralBonuses_def purchaserReferrers_def bonus_step_def bonus_credit_def
      bonusPercentages_def add_bonus_def prisma_defs store_write_simps floor_percentage)

section \<open>Defaults of the purchase route and of the payout step\<close>

lemma bonus_loop_no_outcomes:
  "snd (snd (bonus_loop now pid amt rs acc (db, []))) = []"
proof (induction rs arbitrary: acc db)
  case Nil
  then show ?case by simp
next
  case (Cons r rs)
  have "snd (snd (bonus_step now pid amt r acc (db, []))) = []"
    by (simp add: bonus_step_def bonus_credit_def prisma_defs store_write_nil Let_def
        split: option.splits prod.splits sum.splits)
  then obtain acc1 db1 where "bonus_step now pid amt r acc (db, []) = (acc1, (db1, []))"
    by (metis prod.collapse)
  then show ?case using Cons.IH by simp
qed

lemma distributeReferralBonuses_no_outcomes:
  "snd (snd (distributeReferralBonuses now pid amt (db, []))) = []"
  by (simp add: distributeReferralBonuses_def Let_def bonus_loop_no_outcomes)

text \<open>
  A request with the three required fields, from an account that can pay, with no store
  failure: the route answers success and appends this Purchase row.
\<close>

lemma api_purchase_appends_row:
  assumes "users db userId = Some u"
    and "q_product_id req = Some product_id" and "product_id \<noteq> []"
    and "q_product_name req = Some product_name" and "product_name \<noteq> []"
    and "q_amount req = Some amount" and "amount \<noteq> 0" and "amount \<le> u_saldo u"
  shows "\<exists>m db'. api_purchase z now userId req (db, []) = (Response 200 True m, (db', []))
           \<and> purchases db' = purchases db @
               [\<lparr>p_id = next_id db, p_user_id = userId, p_product_id = product_id,
                 p_product_name = product_name, p_amount = amount,
                 p_quantity = or_default (q_quantity req) 1,
                 p_daily_return = Some (or_default (q_daily_return req) 13),
                 p_cycle_days = Some (or_default (q_cycle_days req) 30),
                 p_purchase_date = now, p_next_payout = setHours_plus z 24 now,
                 p_expiry_date = setDate_plus z (or_default (q_cycle_days req) 30) now,
                 p_status = ''active'', p_total_earned = 0, p_payout_count = 0,
                 p_last_payout = None, p_completed_at = None\<rparr>]"
proof -
  define row where "row =
    \<lparr>p_id = next_id db, p_user_id = userId, p_product_id = product_id,
     p_product_name = product_name, p_amount = amount,
     p_quantity = or_default (q_quantity req) 1,
     p_daily_return = Some (or_default (q_daily_return req) 13),
     p_cycle_days = Some (or_default (q_cycle_days req) 30),
     p_purchase_date = now, p_next_payout = setHours_plus z 24 now,
     p_expiry_date = setDate_plus z (or_default (q_cycle_days req) 30) now,
     p_status = ''active'', p_total_earned = 0, p_payout_count = 0,
     p_last_payout = None, p_completed_at = None\<rparr>"
  define db1 where "db1 =
    db\<lparr>users := (users db)(userId \<mapsto> u\<lparr>u_saldo := u_saldo u - amount\<rparr>),
       purchases := purchases db @ [row], next_id := Suc (next_id db),
       transactions := transactions db @
         [\<lparr>t_user_id = userId, t_type = ''purchase'', t_amount = - amount,
           t_balance_after = u_saldo u - amount, t_created_at = now\<rparr>]\<rparr>"
  have tx: "purchase_tx now userId product_id product_name amount req
              (setHours_plus z 24 now) (setDate_plus z (or_default (q_cycle_days req) 30) now)
              (db, [])
            = (Inr (row, u\<lparr>u_saldo := u_saldo u - amount\<rparr>,
                    \<lparr>t_user_id = userId, t_type = ''purchase'', t_amount = - amount,
                     t_balance_after = u_saldo u - amount, t_created_at = now\<rparr>), (db1, []))"
    using assms(1)
    by (simp add: purchase_tx_def prisma_defs store_write_nil Let_def row_def db1_def)
  obtain bonusResults db2 where
    dist: "distributeReferralBonuses now userId amount (db1, []) = (bonusResults, (db2, []))"
    using distributeReferralBonuses_no_outcomes[of now userId amount db1]
    by (metis prod.collapse)
  have frame: "only_touches (rl_referrer_id ` {r \<in> set (referralLevels db1). rl_user_id r = userId})
                 db1 db2"
    using distributeReferralBonuses_only_touches
      [where pid = userId and w = "(db1, [])" and now = now and amt = amount] dist
    by simp
  then have p2: "purchases db2 = purchases db1" and d2: "dom (users db2) = dom (users db1)"
    unfolding only_touches_def by iprover+
  have "userId \<in> dom (users db1)" by (simp add: db1_def)
  then obtain fu where fu: "users db2 userId = Some fu" using d2 by blast
  have run: "api_purchase z now userId req (db, [])
             = (Response 200 True
                  (PurchaseDone (next_id db) (u_saldo u - amount) (u_saldo fu) bonusResults),
                (db2\<lparr>systemLogs := systemLogs db2 @
                      [\<lparr>l_action = ''PURCHASE_COMPLETED'', l_user_id = Some userId,
                        l_created_at = now\<rparr>]\<rparr>, []))"
    using assms tx dist fu
    by (simp add: api_purchase_def purchase_after_def rethrow_as_def never_throws_def
        andThen_def dollar_transaction_def ret_def systemLog_create_def store_write_nil
        user_findUnique_def Let_def row_def)
  have "purchases (db2\<lparr>systemLogs := systemLogs db2 @
                      [\<lparr>l_action = ''PURCHASE_COMPLETED'', l_user_id = Some userId,
                        l_created_at = now\<rparr>]\<rparr>) = purchases db @ [row]"
    by (simp add: p2 db1_def)
  then show ?thesis unfolding row_def using run by (intro exI conjI)
qed



text \<open>
  In a zone of fixed offset the row expires \<^verbatim>\<open>cycle_days\<close> times 24 hours after its
  \<^verbatim>\<open>purchase_date\<close>, and its first payout is due 24 hours after it.
\<close>

lemma purchase_row_expires_with_its_cycle:
  assumes "users db userId = Some u"
    and "q_product_id req = Some product_id" and "product_id \<noteq> []"
    and "q_product_name req = Some product_name" and "product_name \<noteq> []"
    and "q_amount req = Some amount" and "amount \<noteq> 0" and "amount \<le> u_saldo u"
  shows "let row = last (purchases (fst (snd (api_purchase (fixed_zone c) now userId req
                                                 (db, [])))))
         in p_expiry_date row = p_purchase_date row + or_default (p_cycle_days row) 30 * day_ms
          \<and> p_next_payout row = p_purchase_date row + day_ms"
proof -
  from api_purchase_appends_row[OF assms, where z = "fixed_zone c" and now = now]
  obtain m db' where run: "api_purchase (fixed_zone c) now userId req (db, [])
                           = (Response 200 True m, (db', []))"
    and ps: "purchases db' = purchases db @
               [\<lparr>p_id = next_id db, p_user_id = userId, p_product_id = product_id,
                 p_product_name = product_name, p_amount = amount,
                 p_quantity = or_default (q_quantity req) 1,
                 p_daily_return = Some (or_default (q_daily_return req) 13),
                 p_cycle_days = Some (or_default (q_cycle_days req) 30),
                 p_purchase_date = now, p_next_payout = setHours_plus (fixed_zone c) 24 now,
                 p_expiry_date = setDate_plus (fixed_zone c) (or_default (q_cycle_days req) 30) now,
                 p_status = ''active'', p_total_earned = 0, p_payout_count = 0,
                 p_last_payout = None, p_completed_at = None\<rparr>]"
    by iprover
  show ?thesis
    unfolding Let_def run
    by (simp add: ps or_default_def clock_defs split: option.splits)
qed

section \<open>Balance changes and their Transaction rows\<close>

text \<open>
  The single-account routes \<^verbatim>\<open>add-balance\<close>, \<^verbatim>\<open>deduct-balance\<close> and \<^verbatim>\<open>set-balance\<close> are all
  or nothing, whatever store write fails: either the database is as it was, or the
  balance has changed and exactly one Transaction row with the new balance has been
  appended.
\<close>

lemma single_account_adjustments_all_or_nothing:
  assumes "users db uid = Some u"
  shows "fst (snd (add_balance now uid (Some a) (db, outcomes))) = db
       \<or> users (fst (snd (add_balance now uid (Some a) (db, outcomes))))
             = (users db)(uid \<mapsto> u\<lparr>u_saldo := u_saldo u + a\<rparr>)
           \<and> transactions (fst (snd (add_balance now uid (Some a) (db, outcomes))))
             = transactions db @
                 [\<lparr>t_user_id = uid, t_type = ''admin_addition'', t_amount = a,
                   t_balance_after = u_saldo u + a, t_created_at = now\<rparr>]"
    and "fst (snd (deduct_balance now uid (Some a) (db, outcomes))) = db
       \<or> users (fst (snd (deduct_balance now uid (Some a) (db, outcomes))))
             = (users db)(uid \<mapsto> u\<lparr>u_saldo := u_saldo u - a\<rparr>)
           \<and> transactions (fst (snd (deduct_balance now uid (Some a) (db, outcomes))))
             = transactions db @
                 [\<lparr>t_user_id = uid, t_type = ''admin_deduction'', t_amount = - a,
                   t_balance_after = u_saldo u - a, t_created_at = now\<rparr>]"
    and "fst (snd (set_balance now uid (Some a) (db, outcomes))) = db
       \<or> users (fst (snd (set_balance now uid (Some a) (db, outcomes))))
             = (users db)(uid \<mapsto> u\<lparr>u_saldo := a\<rparr>)
           \<and> transactions (fst (snd (set_balance now uid (Some a) (db, outcomes))))
             = transactions db @
                 [\<lparr>t_user_id = uid,
                   t_type = (if a - u_saldo u \<ge> 0 then ''admin_addition'' else ''admin_deduction''),
                   t_amount = a - u_saldo u, t_balance_after = a, t_created_at = now\<rparr>]"
proof -
  show "fst (snd (add_balance now uid (Some a) (db, outcomes))) = db
       \<or> users (fst (snd (add_balance now uid (Some a) (db, outcomes))))
             = (users db)(uid \<mapsto> u\<lparr>u_saldo := u_saldo u + a\<rparr>)
           \<and> transactions (fst (snd (add_balance now uid (Some a) (db, outcomes))))
             = transactions db @
                 [\<lparr>t_user_id = uid, t_type = ''admin_addition'', t_amount = a,
                   t_balance_after = u_saldo u + a, t_created_at = now\<rparr>]"
  proof (cases outcomes rule: three_writes_cases)
    case ok
    show ?thesis using assms
      by (simp add: add_balance_def add_balance_tx_def prisma_defs Let_def
          store_write_first[OF ok] store_write_drop[OF ok] eval_nat_numeral)
  qed (use assms in \<open>simp_all add: add_balance_def add_balance_tx_def prisma_defs Let_def
          store_write_simps\<close>)
  show "fst (snd (deduct_balance now uid (Some a) (db, outcomes))) = db
       \<or> users (fst (snd (deduct_balance now uid (Some a) (db, outcomes))))
             = (users db)(uid \<mapsto> u\<lparr>u_saldo := u_saldo u - a\<rparr>)
           \<and> transactions (fst (snd (deduct_balance now uid (Some a) (db, outcomes))))
             = transactions db @
                 [\<lparr>t_user_id = uid, t_type = ''admin_deduction'', t_amount = - a,
                   t_balance_after = u_saldo u - a, t_created_at = now\<rparr>]"
  proof (cases outcomes rule: three_writes_cases)
    case ok
    show ?thesis using assms
      by (simp add: deduct_balance_def deduct_balance_tx_def prisma_defs Let_def
          store_write_first[OF ok] store_write_drop[OF ok] eval_nat_numeral)
  qed (use assms in \<open>simp_all add: deduct_balance_def deduct_balance_tx_def prisma_defs Let_def
          store_write_simps\<close>)
  show "fst (snd (set_balance now uid (Some a) (db, outcomes))) = db
       \<or> users (fst (snd (set_balance now uid (Some a) (db, outcomes))))
             = (users db)(uid \<mapsto> u\<lparr>u_saldo := a\<rparr>)
           \<and> transactions (fst (snd (set_balance now uid (Some a) (db, outcomes))))
             = transactions db @
                 [\<lparr>t_user_id = uid,
                   t_type = (if a - u_saldo u \<ge> 0 then ''admin_addition'' else ''admin_deduction''),
                   t_amount = a - u_saldo u, t_balance_after = a, t_created_at = now\<rparr>]"
  proof (cases outcomes rule: three_writes_cases)
    case ok
    show ?thesis using assms
      by (simp add: set_balance_def set_balance_tx_def prisma_defs Let_def
          store_write_first[OF ok] store_write_drop[OF ok] eval_nat_numeral)
  qed (use assms in \<open>simp_all add: set_balance_def set_balance_tx_def prisma_defs Let_def
          store_write_simps\<close>)
qed

text \<open>
  Claim C1 says that every balance change and its Transaction row commit or fail
  together. Evaluated on one account with balance 500 and a bulk \<^verbatim>\<open>add\<close> of 100 whose
  balance update is carried out and whose Transaction insert throws: the bulk route
  answers success with the item under \<^verbatim>\<open>errors\<close>, the balance is 600 and there is no
  Transaction row. The single-account route \<^verbatim>\<open>add-balance\<close>, which wraps the same two
  writes in \<^verbatim>\<open>$transaction\<close>, answers 500 on the same outcomes and leaves the store as it
  was.
\<close>

theorem bulk_add_credits_without_transaction_row:
  "(let db = empty_db\<lparr>users := [1 \<mapsto> \<lparr>u_saldo = 500, u_inviter_id = None\<rparr>]\<rparr>;
        op = \<lparr>op_user_id = Some 1, op_action = Some ''add'', op_amount = Some 100\<rparr>;
        bulk = bulk_balance 0 [op] (db, [False, True]);
        single = add_balance 0 1 (Some 100) (db, [False, True])
    in fst bulk = Response 200 True (BulkDone [] [(Some 1, Thrown StoreError)])
     \<and> users (fst (snd bulk)) 1 = Some \<lparr>u_saldo = 600, u_inviter_id = None\<rparr>
     \<and> transactions (fst (snd bulk)) = []
     \<and> fst single = Response 500 False (InternalError StoreError)
     \<and> fst (snd single) = db)"
  by (simp add: Let_def bulk_balance_def bulk_step_def bulk_try_def bulk_apply_def
      add_balance_def add_balance_tx_def push_error_def push_result_def
      prisma_defs store_write_simps)

end
